theory Spec2Isabelle
  imports Complex_Main
begin

section \<open>Python values, exceptions and the driver\<close>

text \<open>
  The connector talks to the store only through the driver (cx_Oracle): the session pool,
  a connection and its cursor. Every such call may raise. The embedding keeps a trace of
  the calls issued, each with its outcome, and takes the driver as a parameter: given the
  trace so far and the call, it says whether the call raises and what a fetch returns.

  Python separates \<^verbatim>\<open>Exception\<close> (caught by \<^verbatim>\<open>except Exception\<close>) from the other
  subclasses of \<^verbatim>\<open>BaseException\<close> (KeyboardInterrupt, SystemExit), which such a
  handler lets through.
\<close>

datatype exc = Exc string | BaseExc string

fun is_Exception :: "exc \<Rightarrow> bool" where
  "is_Exception (Exc _) = True"
| "is_Exception (BaseExc _) = False"

datatype cell = Num rat | Text string | Null

datatype params = Named "(string \<times> cell) list" | Positional "cell list"

datatype op =
    SessionPool | PoolClose | Acquire | Release
  | Cursor | Execute string params | Fetchall | Fetchone | CursorClose
  | Commit | Rollback
  | Sleep nat

type_synonym event = "op \<times> exc option"
type_synonym trace = "event list"

record driver =
  raises :: "trace \<Rightarrow> op \<Rightarrow> exc option"
  fetchall_rows :: "trace \<Rightarrow> cell list list"
  fetchone_row :: "trace \<Rightarrow> cell list option"
  rowcount :: "trace \<Rightarrow> int"

text \<open>What a Python function of the connector returns.\<close>

datatype pyval = PyNone | Tuples "cell list list" | Tuple "cell list" | PyInt int

type_synonym 'a io = "trace \<Rightarrow> (exc + 'a) \<times> trace"

definition call :: "driver \<Rightarrow> op \<Rightarrow> trace \<Rightarrow> exc option \<times> trace" where
  "call D a tr = (raises D tr a, tr @ [(a, raises D tr a)])"

text \<open>
  \<^verbatim>\<open>get_connection\<close> yields a pool session, or a \<^verbatim>\<open>MockConnection\<close> when the Oracle
  client is not installed. The methods of \<^verbatim>\<open>MockConnection\<close> and \<^verbatim>\<open>MockCursor\<close> are
  \<^verbatim>\<open>pass\<close>: they never raise, \<^verbatim>\<open>fetchall\<close> returns \<^verbatim>\<open>[]\<close>, \<^verbatim>\<open>fetchone\<close> returns
  \<^verbatim>\<open>None\<close> and \<^verbatim>\<open>rowcount\<close> is 0.
\<close>

datatype connection = Session | MockConnection

definition conn_call :: "driver \<Rightarrow> connection \<Rightarrow> op \<Rightarrow> trace \<Rightarrow> exc option \<times> trace" where
  "conn_call D c a tr =
     (case c of Session \<Rightarrow> call D a tr | MockConnection \<Rightarrow> (None, tr @ [(a, None)]))"

definition fetchall :: "driver \<Rightarrow> connection \<Rightarrow> pyval io" where
  "fetchall D c tr =
     (case conn_call D c Fetchall tr of
        (Some e, tr1) \<Rightarrow> (Inl e, tr1)
      | (None, tr1) \<Rightarrow>
          (Inr (Tuples (case c of Session \<Rightarrow> fetchall_rows D tr | MockConnection \<Rightarrow> [])), tr1))"

definition fetchone :: "driver \<Rightarrow> connection \<Rightarrow> pyval io" where
  "fetchone D c tr =
     (case conn_call D c Fetchone tr of
        (Some e, tr1) \<Rightarrow> (Inl e, tr1)
      | (None, tr1) \<Rightarrow>
          (Inr (case c of
                  Session \<Rightarrow> (case fetchone_row D tr of None \<Rightarrow> PyNone | Some r \<Rightarrow> Tuple r)
                | MockConnection \<Rightarrow> PyNone), tr1))"

definition cursor_rowcount :: "driver \<Rightarrow> connection \<Rightarrow> trace \<Rightarrow> int" where
  "cursor_rowcount D c tr = (case c of Session \<Rightarrow> rowcount D tr | MockConnection \<Rightarrow> 0)"

section \<open>oracle\_connection.py: OracleConnectionPool\<close>

text \<open>
  \<^verbatim>\<open>config.config\<close> is not among the sources; what the connector reads from it is a
  parameter: \<^verbatim>\<open>ORACLE_AVAILABLE\<close> (set by the import guard), and of \<^verbatim>\<open>ETL_CONFIG\<close> the
  keys \<^verbatim>\<open>max_retries\<close>, \<^verbatim>\<open>retry_delay_seconds\<close> (a number of seconds, not negative) and
  \<^verbatim>\<open>commit_interval\<close>. \<open>pool_arguments\<close> is what evaluating the arguments of the session
  pool does, that is \<^verbatim>\<open>get_oracle_dsn()\<close> and the lookups \<^verbatim>\<open>self.config['user']\<close>,
  \<^verbatim>\<open>['password']\<close>, \<^verbatim>\<open>['pool_min']\<close>, \<^verbatim>\<open>['pool_max']\<close>, \<^verbatim>\<open>['pool_increment']\<close> and
  \<^verbatim>\<open>['encoding']\<close>: \<open>None\<close> when they evaluate, \<open>Some e\<close> when one of them raises \<open>e\<close> (a
  missing key is a KeyError).
\<close>

record config =
  ORACLE_AVAILABLE :: bool
  max_retries :: int
  retry_delay_seconds :: nat
  commit_interval :: int
  pool_arguments :: "exc option"

text \<open>The object: \<^verbatim>\<open>self.pool\<close> is \<^verbatim>\<open>None\<close> (\<open>pool = False\<close>) until \<^verbatim>\<open>create_pool\<close> succeeds.\<close>

record OracleConnectionPool =
  pool :: bool
  retry_attempts :: int
  retry_delay :: nat

definition init :: "config \<Rightarrow> OracleConnectionPool" where
  "init cfg = \<lparr>pool = False, retry_attempts = max_retries cfg,
                retry_delay = retry_delay_seconds cfg\<rparr>"

text \<open>
  \<^verbatim>\<open>create_pool\<close>: in demo mode it returns True at once and creates nothing. Otherwise
  everything is inside \<^verbatim>\<open>try ... except Exception: return False\<close>: first
  \<^verbatim>\<open>dsn = get_oracle_dsn()\<close> and the lookups of \<^verbatim>\<open>self.config\<close> that make the arguments,
  where an exception ends the attempt before the driver is called, then the one call of
  \<^verbatim>\<open>cx_Oracle.SessionPool(...)\<close>.
\<close>

definition create_pool ::
  "config \<Rightarrow> driver \<Rightarrow> OracleConnectionPool \<Rightarrow> trace \<Rightarrow> (exc + bool) \<times> OracleConnectionPool \<times> trace" where
  "create_pool cfg D P tr =
     (if \<not> ORACLE_AVAILABLE cfg then (Inr True, P, tr)
      else case pool_arguments cfg of
             Some e \<Rightarrow> if is_Exception e then (Inr False, P, tr) else (Inl e, P, tr)
           | None \<Rightarrow>
               (case call D SessionPool tr of
                  (None, tr1) \<Rightarrow> (Inr True, P\<lparr>pool := True\<rparr>, tr1)
                | (Some e, tr1) \<Rightarrow>
                    if is_Exception e then (Inr False, P, tr1) else (Inl e, P, tr1)))"

definition close_pool :: "driver \<Rightarrow> OracleConnectionPool \<Rightarrow> unit io" where
  "close_pool D P tr =
     (if pool P then
        (case call D PoolClose tr of
           (None, tr1) \<Rightarrow> (Inr (), tr1)
         | (Some e, tr1) \<Rightarrow> if is_Exception e then (Inr (), tr1) else (Inl e, tr1))
      else (Inr (), tr))"

subsection \<open>get\_connection\<close>

text \<open>
  The \<^verbatim>\<open>finally\<close> clause of \<^verbatim>\<open>get_connection\<close> once a connection was acquired:
  \<^verbatim>\<open>self.pool.release(connection)\<close>; an exception of the release replaces the outcome.
\<close>

definition release_then :: "driver \<Rightarrow> (exc + 'a) \<Rightarrow> 'a io" where
  "release_then D r tr =
     (case call D Release tr of
        (None, tr1) \<Rightarrow> (r, tr1)
      | (Some e, tr1) \<Rightarrow> (Inl e, tr1))"

text \<open>
  An exception \<open>e\<close> reaches the generator with a connection acquired. The handler
  \<^verbatim>\<open>except Exception\<close> rolls back and re-raises (an exception of the rollback itself
  takes its place); another \<^verbatim>\<open>BaseException\<close> skips the handler. Then \<^verbatim>\<open>finally\<close>.
\<close>

definition on_error :: "driver \<Rightarrow> exc \<Rightarrow> 'a io" where
  "on_error D e tr =
     (if is_Exception e then
        (case call D Rollback tr of
           (None, tr1) \<Rightarrow> release_then D (Inl e) tr1
         | (Some e', tr1) \<Rightarrow> release_then D (Inl e') tr1)
      else release_then D (Inl e) tr)"

text \<open>
  \<^verbatim>\<open>with self.get_connection() as conn: body\<close>. In demo mode the generator yields a
  \<^verbatim>\<open>MockConnection\<close> outside any \<^verbatim>\<open>try\<close>. Otherwise \<^verbatim>\<open>self.pool.acquire()\<close> is inside
  the \<^verbatim>\<open>try\<close>: on \<^verbatim>\<open>self.pool = None\<close> it is an AttributeError, caught and re-raised
  with \<^verbatim>\<open>connection\<close> still \<^verbatim>\<open>None\<close>, so neither rollback nor release is called; the same
  holds when \<^verbatim>\<open>acquire\<close> raises.
\<close>

definition get_connection ::
  "config \<Rightarrow> driver \<Rightarrow> OracleConnectionPool \<Rightarrow> (connection \<Rightarrow> 'a io) \<Rightarrow> 'a io" where
  "get_connection cfg D P body tr =
     (if \<not> ORACLE_AVAILABLE cfg then body MockConnection tr
      else if \<not> pool P then (Inl (Exc ''AttributeError''), tr)
      else case call D Acquire tr of
             (Some e, tr1) \<Rightarrow> (Inl e, tr1)
           | (None, tr1) \<Rightarrow>
               (case body Session tr1 of
                  (Inl e, tr2) \<Rightarrow> on_error D e tr2
                | (Inr v, tr2) \<Rightarrow>
                    (case call D Commit tr2 of
                       (Some e, tr3) \<Rightarrow> on_error D e tr3
                     | (None, tr3) \<Rightarrow> release_then D (Inr v) tr3)))"

subsection \<open>execute\_batch\<close>

text \<open>
  The \<^verbatim>\<open>for i, row in enumerate(data, 1)\<close> loop. \<^verbatim>\<open>i % commit_interval\<close> raises
  ZeroDivisionError when the interval is 0 (only the configured default can be).
\<close>

fun insert_rows ::
  "driver \<Rightarrow> connection \<Rightarrow> string \<Rightarrow> int \<Rightarrow> (nat \<times> cell list) list \<Rightarrow> int \<Rightarrow> int io" where
  "insert_rows D c query K [] total_inserted tr = (Inr total_inserted, tr)"
| "insert_rows D c query K ((i, row) # rest) total_inserted tr =
     (case conn_call D c (Execute query (Positional row)) tr of
        (Some e, tr1) \<Rightarrow> (Inl e, tr1)
      | (None, tr1) \<Rightarrow>
          if K = 0 then (Inl (Exc ''ZeroDivisionError''), tr1)
          else if int i mod K = 0 then
            (case conn_call D c Commit tr1 of
               (Some e, tr2) \<Rightarrow> (Inl e, tr2)
             | (None, tr2) \<Rightarrow> insert_rows D c query K rest (total_inserted + 1) tr2)
          else insert_rows D c query K rest (total_inserted + 1) tr1)"

text \<open>The body of the inner \<^verbatim>\<open>try\<close>: the loop, then the final commit.\<close>

definition batch_try :: "driver \<Rightarrow> connection \<Rightarrow> string \<Rightarrow> cell list list \<Rightarrow> int \<Rightarrow> int io" where
  "batch_try D c query data K tr =
     (case insert_rows D c query K (enumerate 1 data) 0 tr of
        (Inl e, tr1) \<Rightarrow> (Inl e, tr1)
      | (Inr total_inserted, tr1) \<Rightarrow>
          (case conn_call D c Commit tr1 of
             (Some e, tr2) \<Rightarrow> (Inl e, tr2)
           | (None, tr2) \<Rightarrow> (Inr total_inserted, tr2)))"

text \<open>\<^verbatim>\<open>except Exception: conn.rollback(); raise\<close> around it.\<close>

definition batch_except :: "driver \<Rightarrow> connection \<Rightarrow> string \<Rightarrow> cell list list \<Rightarrow> int \<Rightarrow> int io" where
  "batch_except D c query data K tr =
     (case batch_try D c query data K tr of
        (Inr total_inserted, tr1) \<Rightarrow> (Inr total_inserted, tr1)
      | (Inl e, tr1) \<Rightarrow>
          if is_Exception e then
            (case conn_call D c Rollback tr1 of
               (Some e', tr2) \<Rightarrow> (Inl e', tr2)
             | (None, tr2) \<Rightarrow> (Inl e, tr2))
          else (Inl e, tr1))"

text \<open>The block under \<^verbatim>\<open>with\<close>: the cursor, the \<^verbatim>\<open>try\<close>, and \<^verbatim>\<open>finally: cursor.close()\<close>.\<close>

definition batch_body :: "driver \<Rightarrow> string \<Rightarrow> cell list list \<Rightarrow> int \<Rightarrow> connection \<Rightarrow> int io" where
  "batch_body D query data K c tr =
     (case conn_call D c Cursor tr of
        (Some e, tr1) \<Rightarrow> (Inl e, tr1)
      | (None, tr1) \<Rightarrow>
          (case batch_except D c query data K tr1 of
             (r, tr2) \<Rightarrow>
               (case conn_call D c CursorClose tr2 of
                  (Some e, tr3) \<Rightarrow> (Inl e, tr3)
                | (None, tr3) \<Rightarrow> (r, tr3))))"

text \<open>\<^verbatim>\<open>if not commit_interval: commit_interval = ETL_CONFIG['commit_interval']\<close>.\<close>

definition effective_interval :: "config \<Rightarrow> int option \<Rightarrow> int" where
  "effective_interval cfg ci =
     (case ci of None \<Rightarrow> commit_interval cfg
      | Some k \<Rightarrow> if k = 0 then commit_interval cfg else k)"

definition execute_batch ::
  "config \<Rightarrow> driver \<Rightarrow> OracleConnectionPool \<Rightarrow> string \<Rightarrow> cell list list \<Rightarrow> int option \<Rightarrow> int io" where
  "execute_batch cfg D P query data ci tr =
     get_connection cfg D P (batch_body D query data (effective_interval cfg ci)) tr"

subsection \<open>execute\_query and execute\_dml\<close>

text \<open>\<^verbatim>\<open>params or {}\<close>.\<close>

definition params_or_empty :: "(string \<times> cell) list option \<Rightarrow> (string \<times> cell) list" where
  "params_or_empty ps = (case ps of None \<Rightarrow> [] | Some d \<Rightarrow> d)"

text \<open>The block under \<^verbatim>\<open>with\<close> in \<^verbatim>\<open>execute_query\<close>; its value is what \<^verbatim>\<open>return results\<close> returns.\<close>

definition query_body ::
  "driver \<Rightarrow> string \<Rightarrow> (string \<times> cell) list option \<Rightarrow> bool \<Rightarrow> connection \<Rightarrow> pyval io" where
  "query_body D query ps fetch_all c tr =
     (case conn_call D c Cursor tr of
        (Some e, tr1) \<Rightarrow> (Inl e, tr1)
      | (None, tr1) \<Rightarrow>
          (case conn_call D c (Execute query (Named (params_or_empty ps))) tr1 of
             (Some e, tr2) \<Rightarrow> (Inl e, tr2)
           | (None, tr2) \<Rightarrow>
               (case (if fetch_all then fetchall D c tr2 else fetchone D c tr2) of
                  (Inl e, tr3) \<Rightarrow> (Inl e, tr3)
                | (Inr results, tr3) \<Rightarrow>
                    (case conn_call D c CursorClose tr3 of
                       (Some e, tr4) \<Rightarrow> (Inl e, tr4)
                     | (None, tr4) \<Rightarrow> (Inr results, tr4)))))"

text \<open>The block under \<^verbatim>\<open>with\<close> in \<^verbatim>\<open>execute_dml\<close>.\<close>

definition dml_body ::
  "driver \<Rightarrow> string \<Rightarrow> (string \<times> cell) list option \<Rightarrow> connection \<Rightarrow> pyval io" where
  "dml_body D query ps c tr =
     (case conn_call D c Cursor tr of
        (Some e, tr1) \<Rightarrow> (Inl e, tr1)
      | (None, tr1) \<Rightarrow>
          (case conn_call D c (Execute query (Named (params_or_empty ps))) tr1 of
             (Some e, tr2) \<Rightarrow> (Inl e, tr2)
           | (None, tr2) \<Rightarrow>
               (case conn_call D c CursorClose tr2 of
                  (Some e, tr3) \<Rightarrow> (Inl e, tr3)
                | (None, tr3) \<Rightarrow> (Inr (PyInt (cursor_rowcount D c tr2)), tr3))))"

text \<open>
  Both methods wrap their block in the same loop:
  \<^verbatim>\<open>
  for attempt in range(self.retry_attempts):
      try:
          with self.get_connection() as conn: ...; return ...
      except Exception as e:
          if attempt < self.retry_attempts - 1:
              time.sleep(self.retry_delay)
          else:
              raise
  \<close>
  \<open>retry_loop\<close> runs it over the attempts left, \<open>att\<close> being the \<^verbatim>\<open>with\<close> statement. A
  loop that runs out of attempts falls off the end of the method, which returns
  \<^verbatim>\<open>None\<close>.
\<close>

fun retry_loop :: "OracleConnectionPool \<Rightarrow> pyval io \<Rightarrow> int list \<Rightarrow> pyval io" where
  "retry_loop P att [] tr = (Inr PyNone, tr)"
| "retry_loop P att (attempt # rest) tr =
     (case att tr of
        (Inr v, tr1) \<Rightarrow> (Inr v, tr1)
      | (Inl e, tr1) \<Rightarrow>
          if is_Exception e then
            if attempt < retry_attempts P - 1
            then retry_loop P att rest (tr1 @ [(Sleep (retry_delay P), None)])
            else (Inl e, tr1)
          else (Inl e, tr1))"

text \<open>\<^verbatim>\<open>range(n)\<close>: empty when \<open>n \<le> 0\<close>.\<close>

definition py_range :: "int \<Rightarrow> int list" where
  "py_range n = [0..n - 1]"

definition query_attempt ::
  "config \<Rightarrow> driver \<Rightarrow> OracleConnectionPool \<Rightarrow> string \<Rightarrow> (string \<times> cell) list option \<Rightarrow> bool \<Rightarrow> pyval io" where
  "query_attempt cfg D P query ps fetch_all = get_connection cfg D P (query_body D query ps fetch_all)"

definition execute_query ::
  "config \<Rightarrow> driver \<Rightarrow> OracleConnectionPool \<Rightarrow> string \<Rightarrow> (string \<times> cell) list option \<Rightarrow> bool \<Rightarrow> pyval io" where
  "execute_query cfg D P query ps fetch_all tr =
     retry_loop P (query_attempt cfg D P query ps fetch_all) (py_range (retry_attempts P)) tr"

definition dml_attempt ::
  "config \<Rightarrow> driver \<Rightarrow> OracleConnectionPool \<Rightarrow> string \<Rightarrow> (string \<times> cell) list option \<Rightarrow> pyval io" where
  "dml_attempt cfg D P query ps = get_connection cfg D P (dml_body D query ps)"

definition execute_dml ::
  "config \<Rightarrow> driver \<Rightarrow> OracleConnectionPool \<Rightarrow> string \<Rightarrow> (string \<times> cell) list option \<Rightarrow> pyval io" where
  "execute_dml cfg D P query ps tr =
     retry_loop P (dml_attempt cfg D P query ps) (py_range (retry_attempts P)) tr"

subsection \<open>The global pool\<close>

text \<open>The module's state: the trace, and the global \<^verbatim>\<open>_connection_pool\<close>.\<close>

record world =
  trace :: trace
  connection_pool :: "OracleConnectionPool option"

text \<open>
  \<^verbatim>\<open>get_connection_pool\<close> assigns the new object to the global, calls \<^verbatim>\<open>create_pool()\<close>
  and drops what it returns.
\<close>

definition get_connection_pool ::
  "config \<Rightarrow> driver \<Rightarrow> world \<Rightarrow> (exc + OracleConnectionPool) \<times> world" where
  "get_connection_pool cfg D w =
     (case connection_pool w of
        Some P \<Rightarrow> (Inr P, w)
      | None \<Rightarrow>
          (case create_pool cfg D (init cfg) (trace w) of
             (Inl e, P, tr1) \<Rightarrow> (Inl e, \<lparr>trace = tr1, connection_pool = Some P\<rparr>)
           | (Inr created, P, tr1) \<Rightarrow> (Inr P, \<lparr>trace = tr1, connection_pool = Some P\<rparr>)))"

definition close_connection_pool :: "driver \<Rightarrow> world \<Rightarrow> (exc + unit) \<times> world" where
  "close_connection_pool D w =
     (case connection_pool w of
        None \<Rightarrow> (Inr (), w)
      | Some P \<Rightarrow>
          (case close_pool D P (trace w) of
             (Inl e, tr1) \<Rightarrow> (Inl e, w\<lparr>trace := tr1\<rparr>)
           | (Inr u, tr1) \<Rightarrow> (Inr (), \<lparr>trace = tr1, connection_pool = None\<rparr>)))"

section \<open>data\_extraction.py: CSVExtractor\<close>

text \<open>
  A DataFrame as read by \<^verbatim>\<open>pd.read_csv\<close>: the column names in file order, and the
  records, each giving the value of every column (\<open>Null\<close> is NaN, a missing value).
  \<^verbatim>\<open>df[col]\<close> is \<open>series df col\<close>, \<^verbatim>\<open>df.values\<close> is \<open>df_values df\<close>.
\<close>

record dataframe =
  columns :: "string list"
  records :: "(string \<Rightarrow> cell) list"

definition series :: "dataframe \<Rightarrow> string \<Rightarrow> cell list" where
  "series df col = map (\<lambda>r. r col) (records df)"

definition df_values :: "dataframe \<Rightarrow> cell list list" where
  "df_values df = map (\<lambda>r. map r (columns df)) (records df)"

text \<open>
  \<^verbatim>\<open>DATA_QUALITY_RULES\<close> comes from \<^verbatim>\<open>config.config\<close>: a dict from source name to a
  dict of rules. \<^verbatim>\<open>validate_data_quality\<close> tests each of its four keys with \<^verbatim>\<open>in\<close>, so
  they are optional; \<^verbatim>\<open>required_columns\<close> is read by the extractors only.
\<close>

record quality_rules =
  required_columns :: "string list"
  numeric_columns :: "string list option"
  positive_columns :: "string list option"
  range_checks :: "(string \<times> rat \<times> rat) list option"
  categorical_checks :: "(string \<times> cell list) list option"

text \<open>
  The messages, by the f-string that renders each:
  \<^verbatim>\<open>"{col}: {n} non-numeric values"\<close>,
  \<^verbatim>\<open>"{col}: {n} negative values (should be positive)"\<close>,
  \<^verbatim>\<open>"{col}: {n} values out of range [{min_val}, {max_val}]"\<close>,
  \<^verbatim>\<open>"{col}: {n} invalid values (expected: {valid_values})"\<close>.
\<close>

datatype message =
    NonNumeric string nat
  | Negative string nat
  | OutOfRange string nat rat rat
  | Invalid string nat "cell list"

fun message_column :: "message \<Rightarrow> string" where
  "message_column (NonNumeric col n) = col"
| "message_column (Negative col n) = col"
| "message_column (OutOfRange col n lo hi) = col"
| "message_column (Invalid col n vs) = col"

record report =
  source :: string
  total_rows :: nat
  issues :: "message list"
  warnings :: "message list"
  errors :: "message list"

text \<open>
  \<^verbatim>\<open>~pd.to_numeric(df[col], errors='coerce').notna()\<close>: with \<^verbatim>\<open>errors='coerce'\<close> a value
  that does not parse becomes NaN, and a missing value stays NaN; \<^verbatim>\<open>notna\<close> is false
  on both. Which strings pandas parses as numbers is the parameter \<open>parses\<close>.
\<close>

definition non_numeric :: "(string \<Rightarrow> bool) \<Rightarrow> cell \<Rightarrow> bool" where
  "non_numeric parses c = (case c of Num x \<Rightarrow> False | Text s \<Rightarrow> \<not> parses s | Null \<Rightarrow> True)"

definition numeric_check :: "(string \<Rightarrow> bool) \<Rightarrow> dataframe \<Rightarrow> string list \<Rightarrow> message list" where
  "numeric_check parses df cols =
     concat (map (\<lambda>col.
       if col \<in> set (columns df) then
         (let n = length (filter (non_numeric parses) (series df col))
          in if n > 0 then [NonNumeric col n] else [])
       else []) cols)"

text \<open>
  \<^verbatim>\<open>df[col] < x\<close> and \<^verbatim>\<open>df[col] > x\<close>: a comparison with NaN is false; on a column that
  holds a string, pandas raises TypeError.
\<close>

fun is_Text :: "cell \<Rightarrow> bool" where
  "is_Text (Text s) = True"
| "is_Text c = False"

definition compare_scalar :: "(rat \<Rightarrow> bool) \<Rightarrow> cell list \<Rightarrow> exc + bool list" where
  "compare_scalar test vs =
     (if list_ex is_Text vs then Inl (Exc ''TypeError'')
      else Inr (map (\<lambda>c. case c of Num y \<Rightarrow> test y | Text s \<Rightarrow> False | Null \<Rightarrow> False) vs))"

definition count_true :: "bool list \<Rightarrow> nat" where
  "count_true bs = length (filter (\<lambda>b. b) bs)"

fun positive_check :: "dataframe \<Rightarrow> string list \<Rightarrow> exc + message list" where
  "positive_check df [] = Inr []"
| "positive_check df (col # cols) =
     (if col \<in> set (columns df) then
        (case compare_scalar (\<lambda>y. y < 0) (series df col) of
           Inl e \<Rightarrow> Inl e
         | Inr neg \<Rightarrow>
             (case positive_check df cols of
                Inl e \<Rightarrow> Inl e
              | Inr ms \<Rightarrow>
                  Inr ((if count_true neg > 0 then [Negative col (count_true neg)] else []) @ ms)))
      else positive_check df cols)"

text \<open>\<^verbatim>\<open>(df[col] < min_val) | (df[col] > max_val)\<close>.\<close>

fun range_check :: "dataframe \<Rightarrow> (string \<times> rat \<times> rat) list \<Rightarrow> exc + message list" where
  "range_check df [] = Inr []"
| "range_check df ((col, min_val, max_val) # rest) =
     (if col \<in> set (columns df) then
        (case compare_scalar (\<lambda>y. y < min_val) (series df col) of
           Inl e \<Rightarrow> Inl e
         | Inr too_low \<Rightarrow>
             (case compare_scalar (\<lambda>y. y > max_val) (series df col) of
                Inl e \<Rightarrow> Inl e
              | Inr too_high \<Rightarrow>
                  (case range_check df rest of
                     Inl e \<Rightarrow> Inl e
                   | Inr ms \<Rightarrow>
                       (let n = count_true (map2 (\<or>) too_low too_high)
                        in Inr ((if n > 0 then [OutOfRange col n min_val max_val] else []) @ ms)))))
      else range_check df rest)"

text \<open>\<^verbatim>\<open>~df[col].isin(valid_values)\<close>.\<close>

definition categorical_check :: "dataframe \<Rightarrow> (string \<times> cell list) list \<Rightarrow> message list" where
  "categorical_check df checks =
     concat (map (\<lambda>(col, valid_values).
       if col \<in> set (columns df) then
         (let n = length (filter (\<lambda>c. c \<notin> set valid_values) (series df col))
          in if n > 0 then [Invalid col n valid_values] else [])
       else []) checks)"

definition validate_data_quality ::
  "(string \<Rightarrow> bool) \<Rightarrow> (string \<rightharpoonup> quality_rules) \<Rightarrow> dataframe \<Rightarrow> string \<Rightarrow> exc + report" where
  "validate_data_quality parses data_quality_rules df source_name =
     (case data_quality_rules source_name of
        None \<Rightarrow>
          Inr \<lparr>source = source_name, total_rows = length (records df),
               issues = [], warnings = [], errors = []\<rparr>
      | Some rules \<Rightarrow>
          (let w1 = (case numeric_columns rules of None \<Rightarrow> []
                     | Some cols \<Rightarrow> numeric_check parses df cols)
           in case (case positive_columns rules of None \<Rightarrow> Inr []
                    | Some cols \<Rightarrow> positive_check df cols) of
                Inl e \<Rightarrow> Inl e
              | Inr e1 \<Rightarrow>
                  (case (case range_checks rules of None \<Rightarrow> Inr []
                         | Some checks \<Rightarrow> range_check df checks) of
                     Inl e \<Rightarrow> Inl e
                   | Inr w2 \<Rightarrow>
                       (let e2 = (case categorical_checks rules of None \<Rightarrow> []
                                  | Some checks \<Rightarrow> categorical_check df checks)
                        in Inr \<lparr>source = source_name, total_rows = length (records df),
                                issues = (w1 @ w2) @ (e1 @ e2),
                                warnings = w1 @ w2, errors = e1 @ e2\<rparr>))))"

text \<open>
  \<^verbatim>\<open>extract_raw_daily\<close> and \<^verbatim>\<open>extract_raw_sales\<close>, given the DataFrame that \<^verbatim>\<open>read_csv\<close>
  returned: the required-column check is here, and it raises.
\<close>

datatype extract_error = KeyError string | ValueError_Missing_columns "string set"

definition extract_checked ::
  "(string \<rightharpoonup> quality_rules) \<Rightarrow> string \<Rightarrow> dataframe \<Rightarrow> extract_error + dataframe" where
  "extract_checked data_quality_rules source_name df =
     (case data_quality_rules source_name of
        None \<Rightarrow> Inl (KeyError source_name)
      | Some rules \<Rightarrow>
          (let missing_cols = set (required_columns rules) - set (columns df)
           in if missing_cols \<noteq> {} then Inl (ValueError_Missing_columns missing_cols)
              else Inr df))"

definition extract_raw_daily :: "(string \<rightharpoonup> quality_rules) \<Rightarrow> dataframe \<Rightarrow> extract_error + dataframe" where
  "extract_raw_daily data_quality_rules df = extract_checked data_quality_rules ''raw_daily'' df"

definition extract_raw_sales :: "(string \<rightharpoonup> quality_rules) \<Rightarrow> dataframe \<Rightarrow> extract_error + dataframe" where
  "extract_raw_sales data_quality_rules df = extract_checked data_quality_rules ''raw_sales'' df"

section \<open>data\_analysis.py: stage\_data\<close>

fun join :: "string \<Rightarrow> string list \<Rightarrow> string" where
  "join sep [] = []"
| "join sep [x] = x"
| "join sep (x # y # xs) = x @ sep @ join sep (y # xs)"

fun str :: "nat \<Rightarrow> string" where
  "str n = (if n < 10 then [''0123456789'' ! n]
            else str (n div 10) @ [''0123456789'' ! (n mod 10)])"

definition table_for :: "string \<Rightarrow> string option" where
  "table_for source_name =
     (if source_name = ''raw_daily'' then Some ''STG_RAW_DAILY''
      else if source_name = ''raw_sales'' then Some ''STG_RAW_SALES''
      else if source_name = ''raw_meta'' then Some ''STG_RAW_META''
      else None)"

definition insert_sql :: "string \<Rightarrow> dataframe \<Rightarrow> string" where
  "insert_sql table_name df =
     (let cols = join '', '' (columns df);
          placeholders = join '', '' (map (\<lambda>i. '':'' @ str (i + 1)) [0..<length (columns df)])
      in ''INSERT INTO '' @ table_name @ '' ('' @ cols @ '') VALUES ('' @ placeholders @ '')'')"

text \<open>
  The loop of \<^verbatim>\<open>stage_data\<close> over \<^verbatim>\<open>sources.items()\<close>: an unknown source is skipped;
  the batch goes to \<^verbatim>\<open>pool.execute_batch\<close> with \<^verbatim>\<open>ETL_CONFIG['commit_interval']\<close>. The
  quality report is not an argument: \<^verbatim>\<open>extract_data\<close> logs it and returns the sources
  as extracted.
\<close>

fun stage_sources ::
  "config \<Rightarrow> driver \<Rightarrow> OracleConnectionPool \<Rightarrow> (string \<times> dataframe) list \<Rightarrow> unit io" where
  "stage_sources cfg D P [] tr = (Inr (), tr)"
| "stage_sources cfg D P ((source_name, df) # rest) tr =
     (case table_for source_name of
        None \<Rightarrow> stage_sources cfg D P rest tr
      | Some table_name \<Rightarrow>
          (case execute_batch cfg D P (insert_sql table_name df) (df_values df)
                  (Some (commit_interval cfg)) tr of
             (Inl e, tr1) \<Rightarrow> (Inl e, tr1)
           | (Inr total_inserted, tr1) \<Rightarrow> stage_sources cfg D P rest tr1))"

text \<open>
  \<^verbatim>\<open>stage_data\<close>: the pool is fetched before the \<^verbatim>\<open>try\<close>; the handler logs and
  re-raises; \<^verbatim>\<open>finally\<close> closes the global pool.
\<close>

definition stage_data ::
  "config \<Rightarrow> driver \<Rightarrow> (string \<times> dataframe) list \<Rightarrow> world \<Rightarrow> (exc + unit) \<times> world" where
  "stage_data cfg D sources w =
     (case get_connection_pool cfg D w of
        (Inl e, w1) \<Rightarrow> (Inl e, w1)
      | (Inr P, w1) \<Rightarrow>
          (case stage_sources cfg D P sources (trace w1) of
             (r, tr2) \<Rightarrow>
               (case close_connection_pool D (w1\<lparr>trace := tr2\<rparr>) of
                  (Inl e, w3) \<Rightarrow> (Inl e, w3)
                | (Inr u, w3) \<Rightarrow> (r, w3))))"

section \<open>Reading a trace\<close>

definition commits :: "trace \<Rightarrow> nat" where
  "commits tr = length (filter (\<lambda>ev. fst ev = Commit) tr)"

text \<open>The statements sent to the cursor, in the order of the calls.\<close>

definition executed :: "trace \<Rightarrow> (string \<times> params) list" where
  "executed tr = concat (map (\<lambda>ev. case fst ev of Execute q p \<Rightarrow> [(q, p)] | _ \<Rightarrow> []) tr)"

text \<open>The same with the outcome of each statement.\<close>

definition statements :: "trace \<Rightarrow> ((string \<times> params) \<times> exc option) list" where
  "statements tr =
     concat (map (\<lambda>ev. case fst ev of Execute q p \<Rightarrow> [((q, p), snd ev)] | _ \<Rightarrow> []) tr)"

definition sleeps :: "trace \<Rightarrow> nat list" where
  "sleeps tr = concat (map (\<lambda>ev. case fst ev of Sleep d \<Rightarrow> [d] | _ \<Rightarrow> []) tr)"

definition calls :: "op \<Rightarrow> trace \<Rightarrow> nat" where
  "calls a tr = length (filter (\<lambda>ev. fst ev = a) tr)"





text \<open>The calls of a load in which nothing raises: per row, and for the whole batch.\<close>

definition row_events :: "string \<Rightarrow> int \<Rightarrow> nat \<times> cell list \<Rightarrow> trace" where
  "row_events query K ir =
     (Execute query (Positional (snd ir)), None) #
     (if int (fst ir) mod K = 0 then [(Commit, None)] else [])"

definition batch_events :: "config \<Rightarrow> string \<Rightarrow> int \<Rightarrow> cell list list \<Rightarrow> trace" where
  "batch_events cfg query K data =
     (if ORACLE_AVAILABLE cfg then [(Acquire, None)] else []) @
     [(Cursor, None)] @
     concat (map (row_events query K) (enumerate 1 data)) @
     [(Commit, None), (CursorClose, None)] @
     (if ORACLE_AVAILABLE cfg then [(Commit, None), (Release, None)] else [])"

text \<open>A driver that never raises, and a live configuration, for the concrete runs.\<close>

definition ok_driver :: driver where
  "ok_driver = \<lparr>raises = (\<lambda>tr a. None), fetchall_rows = (\<lambda>tr. [[Num 1]]),
                 fetchone_row = (\<lambda>tr. Some [Num 1]), rowcount = (\<lambda>tr. 1)\<rparr>"

definition live_cfg :: config where
  "live_cfg = \<lparr>ORACLE_AVAILABLE = True, max_retries = 3, retry_delay_seconds = 5,
                commit_interval = 1000, pool_arguments = None\<rparr>"

definition live_pool :: OracleConnectionPool where
  "live_pool = (init live_cfg)\<lparr>pool := True\<rparr>"

text \<open>The same configuration without the Oracle client: demo mode.\<close>

definition demo_cfg :: config where
  "demo_cfg = live_cfg\<lparr>ORACLE_AVAILABLE := False\<rparr>"

text \<open>The live configuration with the key \<^verbatim>\<open>'user'\<close> missing from \<^verbatim>\<open>self.config\<close>.\<close>

definition keyless_cfg :: config where
  "keyless_cfg = live_cfg\<lparr>pool_arguments := Some (Exc ''KeyError'')\<rparr>"

text \<open>
  A driver on which every execute raises, and one on which the connection is lost: the
  execute raises, and so does the rollback that follows.
\<close>

definition failing_driver :: driver where
  "failing_driver =
     ok_driver\<lparr>raises := (\<lambda>tr a. case a of Execute q p \<Rightarrow> Some (Exc ''ORA-00001'') | _ \<Rightarrow> None)\<rparr>"

definition lost_driver :: driver where
  "lost_driver =
     ok_driver\<lparr>raises := (\<lambda>tr a. case a of
         Execute q p \<Rightarrow> Some (Exc ''ORA-03113'')
       | Rollback \<Rightarrow> Some (Exc ''DPI-1010'')
       | _ \<Rightarrow> None)\<rparr>"

text \<open>
  A driver on which the first two executes of a trace raise and the later ones succeed.
\<close>

definition flaky_driver :: driver where
  "flaky_driver =
     ok_driver\<lparr>raises := (\<lambda>tr a. case a of
         Execute q p \<Rightarrow> if length (executed tr) < 2 then Some (Exc ''ORA-03113'') else None
       | _ \<Rightarrow> None)\<rparr>"

text \<open>
  For the retry loop: the trace at which attempt \<open>k + 1\<close> starts when the \<open>k\<close> attempts
  before it raised and each was followed by the sleep, and the condition that the first
  \<open>k\<close> attempts from a trace each raise an Exception.
\<close>

fun attempt_start :: "OracleConnectionPool \<Rightarrow> pyval io \<Rightarrow> nat \<Rightarrow> trace \<Rightarrow> trace" where
  "attempt_start P att 0 tr = tr"
| "attempt_start P att (Suc k) tr =
     attempt_start P att k (snd (att tr) @ [(Sleep (retry_delay P), None)])"

fun fails_transiently :: "OracleConnectionPool \<Rightarrow> pyval io \<Rightarrow> nat \<Rightarrow> trace \<Rightarrow> bool" where
  "fails_transiently P att 0 tr = True"
| "fails_transiently P att (Suc k) tr =
     (case fst (att tr) of
        Inl e \<Rightarrow> is_Exception e \<and>
                 fails_transiently P att k (snd (att tr) @ [(Sleep (retry_delay P), None)])
      | Inr v \<Rightarrow> False)"

text \<open>
  Rules and batches for the concrete validations. \<open>digits\<close> stands for the parser of
  \<^verbatim>\<open>pd.to_numeric\<close> on the strings used here. The rules of \<^verbatim>\<open>raw_sales\<close> require the
  columns A and B; the batch \<open>batch_AC\<close> has the columns A and C, and A holds a number and
  a missing value. The batch \<open>batch_negative\<close> of \<^verbatim>\<open>raw_daily\<close> has one row, with
  quantity -5 in a positive-only column.
\<close>

definition digits :: "string \<Rightarrow> bool" where
  "digits s = (s \<noteq> [] \<and> list_all (\<lambda>c. c \<in> set ''0123456789'') s)"

definition sales_rules :: quality_rules where
  "sales_rules =
     \<lparr>required_columns = [''A'', ''B''],
      numeric_columns = Some [''A'', ''B''],
      positive_columns = Some [''A'', ''B''],
      range_checks = Some [(''B'', 0, 10)],
      categorical_checks = Some [(''B'', [Text ''x''])]\<rparr>"

definition daily_rules :: quality_rules where
  "daily_rules =
     \<lparr>required_columns = [''quantity''],
      numeric_columns = None,
      positive_columns = Some [''quantity''],
      range_checks = None,
      categorical_checks = None\<rparr>"

definition rules_table :: "string \<rightharpoonup> quality_rules" where
  "rules_table = [''raw_sales'' \<mapsto> sales_rules, ''raw_daily'' \<mapsto> daily_rules]"

definition batch_AC :: dataframe where
  "batch_AC =
     \<lparr>columns = [''A'', ''C''],
      records = [(\<lambda>c. if c = ''A'' then Num 1 else Text ''z''),
                 (\<lambda>c. if c = ''A'' then Null else Text ''y'')]\<rparr>"

definition batch_negative :: dataframe where
  "batch_negative = \<lparr>columns = [''quantity''], records = [(\<lambda>c. Num (- 5))]\<rparr>"


text \<open>A driver on which the session pool cannot be created.\<close>

definition down_driver :: driver where
  "down_driver =
     ok_driver\<lparr>raises := (\<lambda>tr a. case a of SessionPool \<Rightarrow> Some (Exc ''ORA-12541'') | _ \<Rightarrow> None)\<rparr>"

text \<open>What \<^verbatim>\<open>stage_data\<close> sends for one source when nothing raises.\<close>

definition staged :: "string \<times> dataframe \<Rightarrow> (string \<times> params) list" where
  "staged src =
     (case table_for (fst src) of
        None \<Rightarrow> []
      | Some table_name \<Rightarrow>
          map (\<lambda>row. (insert_sql table_name (snd src), Positional row)) (df_values (snd src)))"

definition rows3 :: "cell list list" where
  "rows3 = [[Num 1], [Num 2], [Num 3]]"

section \<open>Properties\<close>

subsection \<open>Traces of the driver calls\<close>

lemma commits_append [simp]: "commits (xs @ ys) = commits xs + commits ys"
  by (simp add: commits_def)


lemma conn_call_trace: "conn_call D c a tr = (r, tr') \<Longrightarrow> tr' = tr @ [(a, r)]"
  by (auto simp: conn_call_def call_def split: connection.splits)

lemma commits_Nil [simp]: "commits [] = 0"
  by (simp add: commits_def)

lemma commits_Cons [simp]: "commits ((a, r) # tr) = (if a = Commit then 1 else 0) + commits tr"
  by (simp add: commits_def)

lemma insert_rows_Inr:
  "insert_rows D c q K rows t tr = (Inr n, tr') \<Longrightarrow>
   tr' = tr @ concat (map (row_events q K) rows) \<and> n = t + int (length rows)"
proof (induction rows arbitrary: t tr)
  case Nil
  then show ?case by simp
next
  case (Cons ir rows)
  obtain i row where ir: "ir = (i, row)" by (cases ir)
  from Cons.prems obtain tr1 where
    ex: "conn_call D c (Execute q (Positional row)) tr = (None, tr1)"
    by (auto simp: ir split: prod.splits option.splits)
  have tr1: "tr1 = tr @ [(Execute q (Positional row), None)]"
    using conn_call_trace [OF ex] .
  from Cons.prems ex have K: "K \<noteq> 0"
    by (auto simp: ir split: if_splits)
  show ?case
  proof (cases "int i mod K = 0")
    case True
    with Cons.prems ex K obtain tr2 where
      cm: "conn_call D c Commit tr1 = (None, tr2)" and
      rest: "insert_rows D c q K rows (t + 1) tr2 = (Inr n, tr')"
      by (auto simp: ir split: prod.splits option.splits)
    have tr2: "tr2 = tr1 @ [(Commit, None)]" using conn_call_trace [OF cm] .
    from Cons.IH [OF rest] True show ?thesis
      by (simp add: tr1 tr2 ir row_events_def)
  next
    case False
    with Cons.prems ex K have
      rest: "insert_rows D c q K rows (t + 1) tr1 = (Inr n, tr')"
      by (auto simp: ir split: prod.splits option.splits)
    from Cons.IH [OF rest] False show ?thesis
      by (simp add: tr1 ir row_events_def)
  qed
qed

lemma batch_body_Inr:
  assumes "batch_body D q data K c tr = (Inr n, tr')"
  shows "tr' = tr @ [(Cursor, None)] @ concat (map (row_events q K) (enumerate 1 data))
               @ [(Commit, None), (CursorClose, None)] \<and> n = int (length data)"
proof -
  from assms obtain tr1 tr2 where
    cu: "conn_call D c Cursor tr = (None, tr1)" and
    ex: "batch_except D c q data K tr1 = (Inr n, tr2)" and
    cl: "conn_call D c CursorClose tr2 = (None, tr')"
    by (auto simp: batch_body_def split: prod.splits option.splits)
  from ex obtain tr3 where
    ins: "insert_rows D c q K (enumerate 1 data) 0 tr1 = (Inr n, tr3)" and
    cm: "conn_call D c Commit tr3 = (None, tr2)"
    by (auto simp: batch_except_def batch_try_def split: prod.splits option.splits sum.splits if_splits)
  from insert_rows_Inr [OF ins] conn_call_trace [OF cu] conn_call_trace [OF cm]
    conn_call_trace [OF cl]
  show ?thesis by simp
qed

lemma get_connection_Inr:
  assumes "get_connection cfg D P body tr = (Inr v, tr')"
  shows "(\<not> ORACLE_AVAILABLE cfg \<and> body MockConnection tr = (Inr v, tr')) \<or>
         (ORACLE_AVAILABLE cfg \<and> pool P \<and>
          (\<exists>tr2. body Session (tr @ [(Acquire, None)]) = (Inr v, tr2) \<and>
                 tr' = tr2 @ [(Commit, None), (Release, None)]))"
  using assms
  by (auto simp: get_connection_def on_error_def release_then_def call_def
           split: if_splits prod.splits option.splits sum.splits)

lemma execute_batch_Inr:
  assumes "execute_batch cfg D P q data ci tr = (Inr n, tr')"
  shows "tr' = tr @ batch_events cfg q (effective_interval cfg ci) data \<and> n = int (length data)"
  using get_connection_Inr [OF assms [unfolded execute_batch_def]]
  by (auto simp: batch_events_def dest!: batch_body_Inr)

lemma multiples_upto:
  "0 < k \<Longrightarrow> length (filter (\<lambda>j. j mod k = 0) [1..<Suc N]) = N div k"
  by (induction N) (auto simp: div_Suc)

lemma commits_rows:
  "commits (concat (map (row_events q K) rows)) = length (filter (\<lambda>j. int j mod K = 0) (map fst rows))"
  by (induction rows) (auto simp: row_events_def)

lemma multiples_upto_int:
  assumes "1 \<le> K"
  shows "length (filter (\<lambda>j. int j mod K = 0) (map fst (enumerate 1 data))) = nat (int (length data) div K)"
proof -
  have k: "0 < nat K" and K: "K = int (nat K)" using assms by auto
  have "(\<lambda>j. int j mod K = 0) = (\<lambda>j. j mod nat K = 0)"
  proof
    fix j
    have "int j mod K = int (j mod nat K)" by (subst K) (simp only: zmod_int)
    then show "(int j mod K = 0) = (j mod nat K = 0)" by simp
  qed
  moreover have "nat (int (length data) div K) = length data div nat K"
    by (subst K) (simp only: zdiv_int [symmetric] nat_int)
  ultimately show ?thesis
    using multiples_upto [OF k, of "length data"] by simp
qed

lemma commits_rows_enumerate:
  "1 \<le> K \<Longrightarrow> commits (concat (map (row_events q K) (enumerate 1 data))) = nat (int (length data) div K)"
  by (simp only: commits_rows multiples_upto_int)

lemma commits_batch_events:
  "1 \<le> K \<Longrightarrow> commits (batch_events cfg q K data) =
     nat (int (length data) div K) + (if ORACLE_AVAILABLE cfg then 2 else 1)"
  using commits_rows_enumerate [of K q data]
  by (simp add: batch_events_def del: One_nat_def)

lemma executed_Nil [simp]: "executed [] = []"
  by (simp add: executed_def)

lemma executed_Cons [simp]:
  "executed ((a, r) # tr) = (case a of Execute q p \<Rightarrow> [(q, p)] | _ \<Rightarrow> []) @ executed tr"
  by (simp add: executed_def)

lemma executed_append [simp]: "executed (xs @ ys) = executed xs @ executed ys"
  by (simp add: executed_def)




lemma executed_rows:
  "executed (concat (map (row_events q K) rows)) = map (\<lambda>ir. (q, Positional (snd ir))) rows"
  by (induction rows) (auto simp: row_events_def)

lemma executed_batch_events:
  "executed (batch_events cfg q K data) = map (\<lambda>row. (q, Positional row)) data"
proof -
  have "map (\<lambda>ir. (q, Positional (snd ir))) (enumerate 1 data)
          = map (\<lambda>row. (q, Positional row)) (map snd (enumerate 1 data))"
    by (simp only: map_map comp_def)
  then show ?thesis
    by (simp add: batch_events_def executed_rows del: One_nat_def)
qed




lemma release_then_executed: "release_then D r0 tr = (r, tr') \<Longrightarrow> executed tr' = executed tr"
  by (auto simp: release_then_def call_def split: option.splits)

lemma on_error_executed: "on_error D e tr = (r, tr') \<Longrightarrow> executed tr' = executed tr"
  by (auto simp: on_error_def call_def split: option.splits if_splits dest!: release_then_executed)

lemma get_connection_executed:
  assumes body: "\<And>c tr0 r0 tr1. body c tr0 = (r0, tr1) \<Longrightarrow> \<exists>X. R X \<and> executed tr1 = executed tr0 @ X"
    and nil: "R []"
    and run: "get_connection cfg D P body tr = (r, tr')"
  shows "\<exists>X. R X \<and> executed tr' = executed tr @ X"
proof (cases "ORACLE_AVAILABLE cfg \<and> pool P")
  case False
  with run body nil show ?thesis
    by (auto simp: get_connection_def split: if_splits)
next
  case True
  show ?thesis
  proof (cases "raises D tr Acquire")
    case (Some e)
    with True run nil show ?thesis
      by (auto simp: get_connection_def call_def)
  next
    case None
    obtain r0 tr2 where b: "body Session (tr @ [(Acquire, None)]) = (r0, tr2)"
      by (cases "body Session (tr @ [(Acquire, None)])")
    from body [OF b] obtain X where X: "R X" "executed tr2 = executed tr @ X"
      by auto
    have "executed tr' = executed tr2"
      using run True None b
      by (auto simp: get_connection_def call_def
               split: sum.splits option.splits
               dest!: on_error_executed release_then_executed)
    with X show ?thesis by auto
  qed
qed

lemma insert_rows_executed:
  "insert_rows D c q K rows t tr = (r, tr') \<Longrightarrow>
   \<exists>m\<le>length rows. executed tr' = executed tr @ map (\<lambda>ir. (q, Positional (snd ir))) (take m rows)"
proof (induction rows arbitrary: t tr)
  case Nil
  then show ?case by simp
next
  case (Cons ir rows)
  obtain i row where ir: "ir = (i, row)" by (cases ir)
  obtain x tr1 where ex: "conn_call D c (Execute q (Positional row)) tr = (x, tr1)"
    by (cases "conn_call D c (Execute q (Positional row)) tr")
  have tr1: "executed tr1 = executed tr @ [(q, Positional row)]"
    using conn_call_trace [OF ex] by simp
  let ?f = "\<lambda>ir. (q, Positional (snd ir))"
  have one: "executed tr1 = executed tr @ map ?f (take 1 (ir # rows))"
    by (simp add: tr1 ir)
  have step: "\<exists>m\<le>length (ir # rows). executed tr' = executed tr @ map ?f (take m (ir # rows))"
    if "\<exists>m\<le>length rows. executed tr' = executed tr1 @ map ?f (take m rows)"
  proof -
    from that obtain m where m: "m \<le> length rows" "executed tr' = executed tr1 @ map ?f (take m rows)"
      by auto
    then have "Suc m \<le> length (ir # rows) \<and> executed tr' = executed tr @ map ?f (take (Suc m) (ir # rows))"
      by (simp add: tr1 ir)
    then show ?thesis by blast
  qed
  have stop: "\<exists>m\<le>length (ir # rows). executed tr' = executed tr @ map ?f (take m (ir # rows))"
    if "executed tr' = executed tr1"
  proof -
    have "1 \<le> length (ir # rows) \<and> executed tr' = executed tr @ map ?f (take 1 (ir # rows))"
      using that one by simp
    then show ?thesis by blast
  qed
  show ?case
  proof (cases x)
    case (Some e)
    with Cons.prems ex have "tr' = tr1" by (simp add: ir)
    then show ?thesis using stop by simp
  next
    case None
    show ?thesis
    proof (cases "K = 0")
      case True
      with Cons.prems ex None have "tr' = tr1" by (simp add: ir)
      then show ?thesis using stop by simp
    next
      case K: False
      show ?thesis
      proof (cases "int i mod K = 0")
        case False
        with Cons.prems ex None K have "insert_rows D c q K rows (t + 1) tr1 = (r, tr')"
          by (simp add: ir)
        from Cons.IH [OF this] show ?thesis by (rule step)
      next
        case True
        obtain y tr2 where cm: "conn_call D c Commit tr1 = (y, tr2)"
          by (cases "conn_call D c Commit tr1")
        have tr2: "executed tr2 = executed tr1"
          using conn_call_trace [OF cm] by simp
        show ?thesis
        proof (cases y)
          case (Some e)
          with Cons.prems ex None K True cm have "tr' = tr2" by (simp add: ir)
          then show ?thesis using stop tr2 by simp
        next
          case y: None
          with Cons.prems ex None K True cm
          have "insert_rows D c q K rows (t + 1) tr2 = (r, tr')"
            by (simp add: ir)
          from Cons.IH [OF this] show ?thesis using step tr2 by simp
        qed
      qed
    qed
  qed
qed

lemma batch_body_executed:
  assumes "batch_body D q data K c tr = (r, tr')"
  shows "\<exists>X. (\<exists>m\<le>length data. X = map (\<lambda>row. (q, Positional row)) (take m data))
            \<and> executed tr' = executed tr @ X"
proof (cases "conn_call D c Cursor tr")
  case (Pair x tr1)
  have tr1: "executed tr1 = executed tr" using conn_call_trace [OF Pair] by simp
  show ?thesis
  proof (cases x)
    case (Some e)
    with assms Pair have "tr' = tr1" by (simp add: batch_body_def)
    then have "0 \<le> length data \<and> executed tr' = executed tr @ map (\<lambda>row. (q, Positional row)) (take 0 data)"
      using tr1 by simp
    then show ?thesis by blast
  next
    case None
    obtain r1 tr2 where ins: "insert_rows D c q K (enumerate 1 data) 0 tr1 = (r1, tr2)"
      by (cases "insert_rows D c q K (enumerate 1 data) 0 tr1")
    from insert_rows_executed [OF ins] obtain m where
      m: "m \<le> length data"
      "executed tr2 = executed tr1 @ map (\<lambda>ir. (q, Positional (snd ir))) (take m (enumerate 1 data))"
      by auto
    have "map (\<lambda>ir. (q, Positional (snd ir))) (take m (enumerate 1 data))
            = map (\<lambda>row. (q, Positional row)) (take m (map snd (enumerate 1 data)))"
      by (simp only: take_map map_map comp_def)
    with m have tr2: "executed tr2 = executed tr @ map (\<lambda>row. (q, Positional row)) (take m data)"
      by (simp add: tr1 del: One_nat_def)
    obtain r3 tr3 where ex: "batch_except D c q data K tr1 = (r3, tr3)"
      by (cases "batch_except D c q data K tr1")
    have tr3: "executed tr3 = executed tr2"
      using ex ins
      by (auto simp: batch_except_def batch_try_def
               split: sum.splits prod.splits option.splits if_splits
               dest!: conn_call_trace)
    have "executed tr' = executed tr3"
      using assms Pair None ex
      by (auto simp: batch_body_def split: prod.splits option.splits dest!: conn_call_trace)
    with tr2 tr3 m(1) show ?thesis by auto
  qed
qed

lemma execute_batch_executed:
  assumes "execute_batch cfg D P q data ci tr = (r, tr')"
  shows "\<exists>m\<le>length data. executed tr' = executed tr @ map (\<lambda>row. (q, Positional row)) (take m data)"
proof -
  let ?R = "\<lambda>X. \<exists>m\<le>length data. X = map (\<lambda>row. (q, Positional row)) (take m data)"
  have "\<exists>X. ?R X \<and> executed tr' = executed tr @ X"
  proof (rule get_connection_executed [where R = ?R, OF _ _ assms [unfolded execute_batch_def]])
    show "?R []" by (intro exI [of _ 0]) simp
  qed (rule batch_body_executed)
  then show ?thesis by auto
qed

lemma run_rows3:
  "execute_batch live_cfg ok_driver live_pool ''INSERT'' rows3 (Some 2) []
     = (Inr 3, [(Acquire, None), (Cursor, None),
                (Execute ''INSERT'' (Positional [Num 1]), None),
                (Execute ''INSERT'' (Positional [Num 2]), None), (Commit, None),
                (Execute ''INSERT'' (Positional [Num 3]), None),
                (Commit, None), (CursorClose, None), (Commit, None), (Release, None)])"
  by (simp add: execute_batch_def get_connection_def live_cfg_def live_pool_def init_def
      ok_driver_def call_def conn_call_def batch_body_def batch_except_def batch_try_def
      effective_interval_def release_then_def on_error_def rows3_def)

subsection \<open>C2: the commits of a batch load\<close>

lemma ceiling_three_halves: "\<lceil>(3 :: rat) / 2\<rceil> = 2"
  by (rule ceiling_unique) simp_all

text \<open>
  C2, as amended: a load of \<open>N\<close> rows with interval \<open>K \<ge> 1\<close> that returns has issued
  \<open>N div K + 2\<close> commits on a pool session, and \<open>N div K + 1\<close> on the mock connection:
  one at every row whose 1-based index is a multiple of \<open>K\<close>, the unconditional final
  commit of \<^verbatim>\<open>execute_batch\<close>, and the commit of \<^verbatim>\<open>get_connection\<close> on leaving the
  \<^verbatim>\<open>with\<close> block, which the mock branch does not have.
\<close>

theorem execute_batch_commit_count:
  assumes "execute_batch cfg D P query data ci tr = (Inr n, tr')"
    and "1 \<le> effective_interval cfg ci"
  shows "commits tr' = commits tr + nat (int (length data) div effective_interval cfg ci)
           + (if ORACLE_AVAILABLE cfg then 2 else 1)"
  using execute_batch_Inr [OF assms(1)] commits_batch_events [OF assms(2)]
  by simp

theorem execute_batch_commit_count_witness:
  "fst (execute_batch live_cfg ok_driver live_pool ''INSERT'' rows3 (Some 2) []) = Inr 3
   \<and> 1 \<le> effective_interval live_cfg (Some 2)
   \<and> commits (snd (execute_batch live_cfg ok_driver live_pool ''INSERT'' rows3 (Some 2) [])) = 3"
proof -
  have K: "1 \<le> effective_interval live_cfg (Some 2)"
    by (simp add: effective_interval_def)
  have "commits (snd (execute_batch live_cfg ok_driver live_pool ''INSERT'' rows3 (Some 2) []))
      = commits [] + nat (int (length rows3) div effective_interval live_cfg (Some 2))
          + (if ORACLE_AVAILABLE live_cfg then 2 else 1)"
    using execute_batch_commit_count [OF _ K, of ok_driver live_pool "''INSERT''" rows3 "[]" 3]
    by (simp add: run_rows3)
  then show ?thesis
    unfolding run_rows3 by (simp add: rows3_def effective_interval_def live_cfg_def)
qed

text \<open>
  C2 as stated fails: three rows with interval 2 load with three commits, and
  \<open>ceil(3 / 2) = 2\<close>.
\<close>

theorem execute_batch_commits_not_ceiling:
  "fst (execute_batch live_cfg ok_driver live_pool ''INSERT'' rows3 (Some 2) []) = Inr 3
   \<and> length rows3 = 3
   \<and> commits (snd (execute_batch live_cfg ok_driver live_pool ''INSERT'' rows3 (Some 2) [])) = 3
   \<and> nat \<lceil>rat_of_nat (length rows3) / 2\<rceil> = 2
   \<and> commits (snd (execute_batch live_cfg ok_driver live_pool ''INSERT'' rows3 (Some 2) []))
       \<noteq> nat \<lceil>rat_of_nat (length rows3) / 2\<rceil>"
proof -
  have l: "length rows3 = 3" by (simp add: rows3_def)
  have c: "nat \<lceil>rat_of_nat (length rows3) / 2\<rceil> = 2"
    unfolding l using ceiling_three_halves by simp
  show ?thesis
    unfolding c unfolding run_rows3 by (simp add: l)
qed

subsection \<open>C7: the scoped session\<close>

lemma release_then_cases:
  assumes "release_then D r0 t = (r, t')"
  shows "\<exists>x. t' = t @ [(Release, x)] \<and> (x = None \<longrightarrow> r = r0) \<and> (\<forall>e. x = Some e \<longrightarrow> r = Inl e)"
  using assms by (auto simp: release_then_def call_def split: option.splits)

lemma on_error_Exception:
  assumes "is_Exception e" and "on_error D e t = (r, t')"
  shows "\<exists>y x. t' = t @ [(Rollback, y), (Release, x)] \<and> (\<exists>e'. r = Inl e')
           \<and> (y = None \<and> x = None \<longrightarrow> r = Inl e)"
  using assms
  by (auto simp: on_error_def release_then_def call_def split: option.splits)

lemma on_error_BaseException:
  assumes "\<not> is_Exception e" and "on_error D e t = (r, t')"
  shows "\<exists>x. t' = t @ [(Release, x)] \<and> (\<exists>e'. r = Inl e') \<and> (x = None \<longrightarrow> r = Inl e)"
  using assms
  by (auto simp: on_error_def release_then_def call_def split: option.splits)

lemma calls_Nil [simp]: "calls a [] = 0"
  by (simp add: calls_def)

lemma calls_Cons [simp]: "calls a ((b, r) # tr) = (if b = a then 1 else 0) + calls a tr"
  by (simp add: calls_def)

lemma calls_append [simp]: "calls a (xs @ ys) = calls a xs + calls a ys"
  by (simp add: calls_def)

lemma get_connection_session:
  assumes "ORACLE_AVAILABLE cfg" and "pool P" and "raises D tr Acquire = None"
    and "body Session (tr @ [(Acquire, None)]) = (rb, tr2)"
    and "get_connection cfg D P body tr = (r, tr')"
  shows "\<exists>mid x. tr' = tr2 @ mid @ [(Release, x)] \<and> calls Release mid = 0
           \<and> (\<forall>v. rb = Inr v \<longrightarrow>
                 (\<exists>c rest. mid = (Commit, c) # rest)
                 \<and> (mid = [(Commit, None)] \<and> x = None \<longrightarrow> r = Inr v))
           \<and> (\<forall>e. rb = Inl e \<and> is_Exception e \<longrightarrow>
                 (\<exists>y. mid = [(Rollback, y)]) \<and> (\<exists>e'. r = Inl e')
                 \<and> (mid = [(Rollback, None)] \<and> x = None \<longrightarrow> r = Inl e))
           \<and> (\<forall>e. rb = Inl e \<and> \<not> is_Exception e \<longrightarrow>
                 mid = [] \<and> (\<exists>e'. r = Inl e') \<and> (x = None \<longrightarrow> r = Inl e))"
proof (cases rb)
  case (Inl e)
  with assms have oe: "on_error D e tr2 = (r, tr')"
    by (simp add: get_connection_def call_def)
  show ?thesis
  proof (cases "is_Exception e")
    case True
    from on_error_Exception [OF True oe] obtain y x e' where
      "tr' = tr2 @ [(Rollback, y), (Release, x)]" "r = Inl e'" "y = None \<and> x = None \<longrightarrow> r = Inl e"
      by auto
    with Inl True show ?thesis
      by (intro exI [of _ "[(Rollback, y)]"] exI [of _ x]) simp
  next
    case False
    from on_error_BaseException [OF False oe] obtain x e' where
      "tr' = tr2 @ [(Release, x)]" "r = Inl e'" "x = None \<longrightarrow> r = Inl e"
      by auto
    with Inl False show ?thesis
      by (intro exI [of _ "[]"] exI [of _ x]) simp
  qed
next
  case (Inr v)
  obtain c where c: "raises D tr2 Commit = c" by simp
  show ?thesis
  proof (cases c)
    case None
    with assms Inr c have "release_then D (Inr v) (tr2 @ [(Commit, None)]) = (r, tr')"
      by (simp add: get_connection_def call_def)
    from release_then_cases [OF this] obtain x where
      "tr' = (tr2 @ [(Commit, None)]) @ [(Release, x)]" "x = None \<longrightarrow> r = Inr v"
      by auto
    with Inr show ?thesis
      by (intro exI [of _ "[(Commit, None)]"] exI [of _ x]) simp
  next
    case (Some e)
    with assms Inr c have oe: "on_error D e (tr2 @ [(Commit, Some e)]) = (r, tr')"
      by (simp add: get_connection_def call_def)
    show ?thesis
    proof (cases "is_Exception e")
      case True
      from on_error_Exception [OF True oe] obtain y x where
        "tr' = (tr2 @ [(Commit, Some e)]) @ [(Rollback, y), (Release, x)]"
        by auto
      with Inr show ?thesis
        by (intro exI [of _ "[(Commit, Some e), (Rollback, y)]"] exI [of _ x]) simp
    next
      case False
      from on_error_BaseException [OF False oe] obtain x where
        "tr' = (tr2 @ [(Commit, Some e)]) @ [(Release, x)]"
        by auto
      with Inr show ?thesis
        by (intro exI [of _ "[(Commit, Some e)]"] exI [of _ x]) simp
    qed
  qed
qed

text \<open>
  C7, as amended. With a session acquired, whatever the unit of work and the driver do,
  the calls after the unit of work end with exactly one release. After a clean exit the
  first of them is a commit, and the value is returned when commit and release succeed.
  After an Exception they are a rollback and the release, and the call raises: the
  Exception of the unit of work when rollback and release succeed. Another
  BaseException is followed by the release alone. In demo mode the unit of work runs on
  the mock connection and \<^verbatim>\<open>get_connection\<close> adds no call of its own: no commit, no
  rollback, no release.
\<close>

theorem get_connection_scoped:
  assumes "body Session (tr @ [(Acquire, None)]) = (rb, tr2)"
    and "get_connection cfg D P body tr = (r, tr')"
  shows "(ORACLE_AVAILABLE cfg \<and> pool P \<and> raises D tr Acquire = None \<longrightarrow>
           (\<exists>mid x. tr' = tr2 @ mid @ [(Release, x)] \<and> calls Release mid = 0
             \<and> (\<forall>v. rb = Inr v \<longrightarrow>
                   (\<exists>c rest. mid = (Commit, c) # rest)
                   \<and> (mid = [(Commit, None)] \<and> x = None \<longrightarrow> r = Inr v))
             \<and> (\<forall>e. rb = Inl e \<and> is_Exception e \<longrightarrow>
                   (\<exists>y. mid = [(Rollback, y)]) \<and> (\<exists>e'. r = Inl e')
                   \<and> (mid = [(Rollback, None)] \<and> x = None \<longrightarrow> r = Inl e))
             \<and> (\<forall>e. rb = Inl e \<and> \<not> is_Exception e \<longrightarrow>
                   mid = [] \<and> (\<exists>e'. r = Inl e') \<and> (x = None \<longrightarrow> r = Inl e))))
         \<and> (\<not> ORACLE_AVAILABLE cfg \<longrightarrow> (r, tr') = body MockConnection tr)"
proof (intro conjI impI)
  assume "ORACLE_AVAILABLE cfg \<and> pool P \<and> raises D tr Acquire = None"
  then have a: "ORACLE_AVAILABLE cfg" "pool P" "raises D tr Acquire = None" by simp_all
  show "\<exists>mid x. tr' = tr2 @ mid @ [(Release, x)] \<and> calls Release mid = 0
             \<and> (\<forall>v. rb = Inr v \<longrightarrow>
                   (\<exists>c rest. mid = (Commit, c) # rest)
                   \<and> (mid = [(Commit, None)] \<and> x = None \<longrightarrow> r = Inr v))
             \<and> (\<forall>e. rb = Inl e \<and> is_Exception e \<longrightarrow>
                   (\<exists>y. mid = [(Rollback, y)]) \<and> (\<exists>e'. r = Inl e')
                   \<and> (mid = [(Rollback, None)] \<and> x = None \<longrightarrow> r = Inl e))
             \<and> (\<forall>e. rb = Inl e \<and> \<not> is_Exception e \<longrightarrow>
                   mid = [] \<and> (\<exists>e'. r = Inl e') \<and> (x = None \<longrightarrow> r = Inl e))"
    by (rule get_connection_session [OF a assms])
next
  assume "\<not> ORACLE_AVAILABLE cfg"
  with assms(2) show "(r, tr') = body MockConnection tr"
    by (simp add: get_connection_def)
qed

lemma run_dml_clean:
  "get_connection live_cfg ok_driver live_pool (dml_body ok_driver ''UPDATE'' None) []
     = (Inr (PyInt 1),
        [(Acquire, None), (Cursor, None), (Execute ''UPDATE'' (Named []), None),
         (CursorClose, None), (Commit, None), (Release, None)])"
  by (simp add: get_connection_def live_cfg_def live_pool_def init_def ok_driver_def
      call_def conn_call_def dml_body_def release_then_def on_error_def params_or_empty_def
      cursor_rowcount_def)

lemma body_dml_failing:
  "dml_body failing_driver ''UPDATE'' None Session [(Acquire, None)]
     = (Inl (Exc ''ORA-00001''),
        [(Acquire, None), (Cursor, None),
         (Execute ''UPDATE'' (Named []), Some (Exc ''ORA-00001''))])"
  by (simp add: failing_driver_def ok_driver_def call_def conn_call_def dml_body_def
      params_or_empty_def)

lemma run_dml_failing:
  "get_connection live_cfg failing_driver live_pool (dml_body failing_driver ''UPDATE'' None) []
     = (Inl (Exc ''ORA-00001''),
        [(Acquire, None), (Cursor, None),
         (Execute ''UPDATE'' (Named []), Some (Exc ''ORA-00001'')),
         (Rollback, None), (Release, None)])"
  by (simp add: get_connection_def live_cfg_def live_pool_def init_def failing_driver_def
      ok_driver_def call_def conn_call_def dml_body_def release_then_def on_error_def
      params_or_empty_def)

theorem get_connection_scoped_witness:
  "ORACLE_AVAILABLE live_cfg \<and> pool live_pool \<and> raises failing_driver [] Acquire = None
   \<and> fst (dml_body failing_driver ''UPDATE'' None Session [(Acquire, None)]) = Inl (Exc ''ORA-00001'')
   \<and> is_Exception (Exc ''ORA-00001'')
   \<and> get_connection live_cfg failing_driver live_pool (dml_body failing_driver ''UPDATE'' None) []
       = (Inl (Exc ''ORA-00001''),
          snd (dml_body failing_driver ''UPDATE'' None Session [(Acquire, None)])
            @ [(Rollback, None)] @ [(Release, None)])"
proof -
  have a: "ORACLE_AVAILABLE live_cfg" by (simp add: live_cfg_def)
  have p: "pool live_pool" by (simp add: live_pool_def)
  have q: "raises failing_driver [] Acquire = None"
    by (simp add: failing_driver_def ok_driver_def)
  have b: "dml_body failing_driver ''UPDATE'' None Session ([] @ [(Acquire, None)])
      = (Inl (Exc ''ORA-00001''),
         snd (dml_body failing_driver ''UPDATE'' None Session [(Acquire, None)]))"
    by (simp add: body_dml_failing)
  from get_connection_scoped [OF b run_dml_failing] a p q
  obtain mid x where
    "snd (get_connection live_cfg failing_driver live_pool (dml_body failing_driver ''UPDATE'' None) [])
       = snd (dml_body failing_driver ''UPDATE'' None Session [(Acquire, None)]) @ mid @ [(Release, x)]"
    unfolding run_dml_failing body_dml_failing by auto
  then show ?thesis
    using a p q unfolding run_dml_failing body_dml_failing by simp
qed

text \<open>
  C7 as stated fails where the connection is lost: the unit of work raises ORA-03113,
  the rollback raises DPI-1010, the session is released, and the call raises DPI-1010,
  not the error of the unit of work. It fails in demo mode too: after a clean exit no
  commit is issued.
\<close>

theorem get_connection_rollback_error_replaces:
  "dml_body lost_driver ''UPDATE'' None Session [(Acquire, None)]
     = (Inl (Exc ''ORA-03113''),
        [(Acquire, None), (Cursor, None),
         (Execute ''UPDATE'' (Named []), Some (Exc ''ORA-03113''))])
   \<and> get_connection live_cfg lost_driver live_pool (dml_body lost_driver ''UPDATE'' None) []
     = (Inl (Exc ''DPI-1010''),
        [(Acquire, None), (Cursor, None),
         (Execute ''UPDATE'' (Named []), Some (Exc ''ORA-03113'')),
         (Rollback, Some (Exc ''DPI-1010'')), (Release, None)])
   \<and> get_connection demo_cfg ok_driver (init demo_cfg) (dml_body ok_driver ''UPDATE'' None) []
     = (Inr (PyInt 0),
        [(Cursor, None), (Execute ''UPDATE'' (Named []), None), (CursorClose, None)])"
  by (simp add: get_connection_def live_cfg_def live_pool_def init_def lost_driver_def
      ok_driver_def call_def conn_call_def dml_body_def release_then_def on_error_def
      params_or_empty_def demo_cfg_def cursor_rowcount_def)

subsection \<open>The retry loop\<close>

lemma retry_loop_skip:
  "fails_transiently P att k tr \<Longrightarrow> a + int k \<le> retry_attempts P - 1 \<Longrightarrow>
   retry_loop P att [a..retry_attempts P - 1] tr
     = retry_loop P att [a + int k..retry_attempts P - 1] (attempt_start P att k tr)"
proof (induction k arbitrary: a tr)
  case 0
  then show ?case by simp
next
  case (Suc k)
  obtain r tr1 where att: "att tr = (r, tr1)" by (cases "att tr")
  from Suc.prems(1) att obtain e where e: "r = Inl e" "is_Exception e"
    and rest: "fails_transiently P att k (tr1 @ [(Sleep (retry_delay P), None)])"
    by (auto split: sum.splits)
  from Suc.prems(2) have a: "a < retry_attempts P - 1" "a \<le> retry_attempts P - 1"
    and a1: "(a + 1) + int k \<le> retry_attempts P - 1" by simp_all
  have "[a..retry_attempts P - 1] = a # [a + 1..retry_attempts P - 1]"
    using a(2) by (simp add: upto_rec1)
  then have "retry_loop P att [a..retry_attempts P - 1] tr
      = retry_loop P att [a + 1..retry_attempts P - 1] (tr1 @ [(Sleep (retry_delay P), None)])"
    using att e a(1) by simp
  also have "\<dots> = retry_loop P att [(a + 1) + int k..retry_attempts P - 1]
      (attempt_start P att k (tr1 @ [(Sleep (retry_delay P), None)]))"
    by (rule Suc.IH [OF rest a1])
  also have "\<dots> = retry_loop P att [a + int (Suc k)..retry_attempts P - 1]
      (attempt_start P att (Suc k) tr)"
    using att by (simp add: add.commute add.left_commute)
  finally show ?case .
qed

lemma fails_transiently_Suc:
  "fails_transiently P att (Suc k) tr \<longleftrightarrow>
     fails_transiently P att k tr \<and>
     (\<exists>e. fst (att (attempt_start P att k tr)) = Inl e \<and> is_Exception e)"
proof (induction k arbitrary: tr)
  case 0
  show ?case by (auto split: sum.splits)
next
  case (Suc k)
  show ?case
    using Suc.IH [of "snd (att tr) @ [(Sleep (retry_delay P), None)]"]
    by (cases "fst (att tr)") auto
qed

lemma retry_loop_success:
  assumes "fails_transiently P att k tr" and "int k < retry_attempts P"
    and "att (attempt_start P att k tr) = (Inr v, tr')"
  shows "retry_loop P att (py_range (retry_attempts P)) tr = (Inr v, tr')"
proof -
  from assms(2) have le: "0 + int k \<le> retry_attempts P - 1" by simp
  have "[int k..retry_attempts P - 1] = int k # [int k + 1..retry_attempts P - 1]"
    using le by (simp add: upto_rec1)
  with retry_loop_skip [OF assms(1) le] assms(3) show ?thesis
    by (simp add: py_range_def)
qed

lemma retry_loop_exhausted:
  assumes "fails_transiently P att n tr" and "int n = retry_attempts P" and "1 \<le> n"
  shows "retry_loop P att (py_range (retry_attempts P)) tr = att (attempt_start P att (n - 1) tr)
         \<and> (\<exists>e. fst (att (attempt_start P att (n - 1) tr)) = Inl e \<and> is_Exception e)"
proof -
  from assms(3) obtain k where n: "n = Suc k" by (cases n) auto
  from assms(1) have k: "fails_transiently P att k tr"
    and last: "\<exists>e. fst (att (attempt_start P att k tr)) = Inl e \<and> is_Exception e"
    unfolding n fails_transiently_Suc by simp_all
  from last obtain e tr1 where att: "att (attempt_start P att k tr) = (Inl e, tr1)" "is_Exception e"
    by (cases "att (attempt_start P att k tr)") auto
  from assms(2) have le: "0 + int k \<le> retry_attempts P - 1" and eq: "int k = retry_attempts P - 1"
    by (simp_all add: n)
  have "[int k..retry_attempts P - 1] = [int k]"
    unfolding eq [symmetric] by simp
  with retry_loop_skip [OF k le] att eq have
    "retry_loop P att (py_range (retry_attempts P)) tr = (Inl e, tr1)"
    by (simp add: py_range_def)
  with att last show ?thesis by (simp add: n)
qed

lemma retry_loop_no_attempt:
  "retry_attempts P \<le> 0 \<Longrightarrow> retry_loop P att (py_range (retry_attempts P)) tr = (Inr PyNone, tr)"
  by (simp add: py_range_def)

lemma retry_loop_final_attempt:
  "a \<le> retry_attempts P - 1 \<Longrightarrow> nat (retry_attempts P - 1 - a) = d \<Longrightarrow>
   \<exists>k. a + int k \<le> retry_attempts P - 1 \<and> fails_transiently P att k tr \<and>
       retry_loop P att [a..retry_attempts P - 1] tr = att (attempt_start P att k tr) \<and>
       (a + int k = retry_attempts P - 1
        \<or> \<not> (\<exists>e. fst (att (attempt_start P att k tr)) = Inl e \<and> is_Exception e))"
proof (induction d arbitrary: a tr)
  case 0
  then have a: "a = retry_attempts P - 1" by simp
  have "[a..retry_attempts P - 1] = [a]" unfolding a by simp
  then have "retry_loop P att [a..retry_attempts P - 1] tr = att tr"
    using a by (cases "att tr") (auto split: sum.splits)
  then have "a + int 0 \<le> retry_attempts P - 1 \<and> fails_transiently P att 0 tr \<and>
       retry_loop P att [a..retry_attempts P - 1] tr = att (attempt_start P att 0 tr) \<and>
       (a + int 0 = retry_attempts P - 1
        \<or> \<not> (\<exists>e. fst (att (attempt_start P att 0 tr)) = Inl e \<and> is_Exception e))"
    using a by simp
  then show ?case by (rule exI)
next
  case (Suc d)
  then have a: "a < retry_attempts P - 1" by simp
  have up: "[a..retry_attempts P - 1] = a # [a + 1..retry_attempts P - 1]"
    using a by (simp add: upto_rec1)
  obtain r tr1 where att: "att tr = (r, tr1)" by (cases "att tr")
  show ?case
  proof (cases "\<exists>e. r = Inl e \<and> is_Exception e")
    case False
    then have "retry_loop P att [a..retry_attempts P - 1] tr = att tr"
      using att up by (cases r) auto
    then have "a + int 0 \<le> retry_attempts P - 1 \<and> fails_transiently P att 0 tr \<and>
       retry_loop P att [a..retry_attempts P - 1] tr = att (attempt_start P att 0 tr) \<and>
       (a + int 0 = retry_attempts P - 1
        \<or> \<not> (\<exists>e. fst (att (attempt_start P att 0 tr)) = Inl e \<and> is_Exception e))"
      using a False att by simp
    then show ?thesis by (rule exI)
  next
    case True
    then obtain e where e: "r = Inl e" "is_Exception e" by auto
    let ?tr2 = "tr1 @ [(Sleep (retry_delay P), None)]"
    have step: "retry_loop P att [a..retry_attempts P - 1] tr
        = retry_loop P att [a + 1..retry_attempts P - 1] ?tr2"
      using att up e a by simp
    from Suc.prems a have "a + 1 \<le> retry_attempts P - 1" "nat (retry_attempts P - 1 - (a + 1)) = d"
      by simp_all
    from Suc.IH [OF this, of ?tr2] obtain k where
      k: "a + 1 + int k \<le> retry_attempts P - 1" "fails_transiently P att k ?tr2"
         "retry_loop P att [a + 1..retry_attempts P - 1] ?tr2 = att (attempt_start P att k ?tr2)"
         "a + 1 + int k = retry_attempts P - 1
          \<or> \<not> (\<exists>e. fst (att (attempt_start P att k ?tr2)) = Inl e \<and> is_Exception e)"
      by blast
    have "a + int (Suc k) \<le> retry_attempts P - 1 \<and> fails_transiently P att (Suc k) tr \<and>
       retry_loop P att [a..retry_attempts P - 1] tr = att (attempt_start P att (Suc k) tr) \<and>
       (a + int (Suc k) = retry_attempts P - 1
        \<or> \<not> (\<exists>e. fst (att (attempt_start P att (Suc k) tr)) = Inl e \<and> is_Exception e))"
      using k step att e by (simp add: add.commute add.left_commute)
    then show ?thesis by (rule exI)
  qed
qed

lemma retry_loop_ends_at_final:
  assumes "1 \<le> retry_attempts P"
  shows "\<exists>k. int k < retry_attempts P \<and> fails_transiently P att k tr \<and>
       retry_loop P att (py_range (retry_attempts P)) tr = att (attempt_start P att k tr) \<and>
       (int (Suc k) = retry_attempts P
        \<or> \<not> (\<exists>e. fst (att (attempt_start P att k tr)) = Inl e \<and> is_Exception e))"
proof -
  from assms have "0 \<le> retry_attempts P - 1" by simp
  from retry_loop_final_attempt [OF this refl, of att tr] obtain k where
    k: "0 + int k \<le> retry_attempts P - 1" "fails_transiently P att k tr"
       "retry_loop P att [0..retry_attempts P - 1] tr = att (attempt_start P att k tr)"
       "0 + int k = retry_attempts P - 1
        \<or> \<not> (\<exists>e. fst (att (attempt_start P att k tr)) = Inl e \<and> is_Exception e)"
    by blast
  have "int k < retry_attempts P \<and> fails_transiently P att k tr \<and>
       retry_loop P att (py_range (retry_attempts P)) tr = att (attempt_start P att k tr) \<and>
       (int (Suc k) = retry_attempts P
        \<or> \<not> (\<exists>e. fst (att (attempt_start P att k tr)) = Inl e \<and> is_Exception e))"
    using k unfolding py_range_def by auto
  then show ?thesis by (rule exI)
qed

lemma retry_loop_raises_only_exhausted:
  assumes "1 \<le> retry_attempts P"
    and "fst (retry_loop P att (py_range (retry_attempts P)) tr) = Inl e" and "is_Exception e"
  shows "fails_transiently P att (nat (retry_attempts P)) tr
         \<and> retry_loop P att (py_range (retry_attempts P)) tr
             = att (attempt_start P att (nat (retry_attempts P) - 1) tr)"
proof -
  from retry_loop_ends_at_final [OF assms(1), of att tr] obtain k where
    k: "int k < retry_attempts P" "fails_transiently P att k tr"
       "retry_loop P att (py_range (retry_attempts P)) tr = att (attempt_start P att k tr)"
       "int (Suc k) = retry_attempts P
        \<or> \<not> (\<exists>e. fst (att (attempt_start P att k tr)) = Inl e \<and> is_Exception e)"
    by blast
  from assms(2,3) k(3) have ex: "\<exists>e. fst (att (attempt_start P att k tr)) = Inl e \<and> is_Exception e"
    by auto
  with k(4) have n: "int (Suc k) = retry_attempts P" by blast
  then have nk: "nat (retry_attempts P) = Suc k" by linarith
  have "fails_transiently P att (Suc k) tr"
    unfolding fails_transiently_Suc using k(2) ex by simp
  with k(3) show ?thesis by (simp add: nk)
qed

lemma sleeps_Nil [simp]: "sleeps [] = []"
  by (simp add: sleeps_def)

lemma sleeps_Cons [simp]:
  "sleeps ((a, r) # tr) = (case a of Sleep d \<Rightarrow> [d] | _ \<Rightarrow> []) @ sleeps tr"
  by (simp add: sleeps_def)

lemma sleeps_append [simp]: "sleeps (xs @ ys) = sleeps xs @ sleeps ys"
  by (simp add: sleeps_def)

lemma release_then_sleeps: "release_then D r0 tr = (r, tr') \<Longrightarrow> sleeps tr' = sleeps tr"
  by (auto simp: release_then_def call_def split: option.splits)

lemma on_error_sleeps: "on_error D e tr = (r, tr') \<Longrightarrow> sleeps tr' = sleeps tr"
  by (auto simp: on_error_def call_def split: option.splits if_splits dest!: release_then_sleeps)

lemma get_connection_sleeps:
  assumes body: "\<And>c tr0 r0 tr1. body c tr0 = (r0, tr1) \<Longrightarrow> sleeps tr1 = sleeps tr0"
    and run: "get_connection cfg D P body tr = (r, tr')"
  shows "sleeps tr' = sleeps tr"
proof (cases "ORACLE_AVAILABLE cfg \<and> pool P")
  case False
  with run body show ?thesis
    by (auto simp: get_connection_def split: if_splits)
next
  case True
  show ?thesis
  proof (cases "raises D tr Acquire")
    case (Some e)
    with True run show ?thesis
      by (auto simp: get_connection_def call_def)
  next
    case None
    obtain r0 tr2 where b: "body Session (tr @ [(Acquire, None)]) = (r0, tr2)"
      by (cases "body Session (tr @ [(Acquire, None)])")
    from body [OF b] have tr2: "sleeps tr2 = sleeps tr" by simp
    have "sleeps tr' = sleeps tr2"
      using run True None b
      by (auto simp: get_connection_def call_def
               split: sum.splits option.splits
               dest!: on_error_sleeps release_then_sleeps)
    with tr2 show ?thesis by simp
  qed
qed

lemma query_body_sleeps:
  "query_body D q ps fa c tr = (r, tr') \<Longrightarrow> sleeps tr' = sleeps tr"
  by (auto simp: query_body_def fetchall_def fetchone_def
           split: prod.splits option.splits sum.splits if_splits
           dest!: conn_call_trace)

lemma dml_body_sleeps:
  "dml_body D q ps c tr = (r, tr') \<Longrightarrow> sleeps tr' = sleeps tr"
  by (auto simp: dml_body_def split: prod.splits option.splits dest!: conn_call_trace)

lemma query_attempt_sleeps: "sleeps (snd (query_attempt cfg D P q ps fa tr)) = sleeps tr"
  using get_connection_sleeps [of "query_body D q ps fa" cfg D P tr, OF query_body_sleeps]
  by (cases "query_attempt cfg D P q ps fa tr") (simp add: query_attempt_def)

lemma dml_attempt_sleeps: "sleeps (snd (dml_attempt cfg D P q ps tr)) = sleeps tr"
  using get_connection_sleeps [of "dml_body D q ps" cfg D P tr, OF dml_body_sleeps]
  by (cases "dml_attempt cfg D P q ps tr") (simp add: dml_attempt_def)

lemma attempt_start_sleeps:
  assumes "\<And>t. sleeps (snd (att t)) = sleeps t"
  shows "sleeps (attempt_start P att k tr) = sleeps tr @ replicate k (retry_delay P)"
proof (induction k arbitrary: tr)
  case 0
  show ?case by simp
next
  case (Suc k)
  show ?case
    by (simp add: Suc.IH assms replicate_append_same)
qed

lemma attempt_sleeps:
  assumes "att = query_attempt cfg D P query ps fetch_all \<or> att = dml_attempt cfg D P query ps"
  shows "sleeps (snd (att t)) = sleeps t"
  using assms query_attempt_sleeps dml_attempt_sleeps by auto

lemma run_is_retry_loop:
  assumes "(att, run) = (query_attempt cfg D P query ps fetch_all,
                         execute_query cfg D P query ps fetch_all)
           \<or> (att, run) = (dml_attempt cfg D P query ps, execute_dml cfg D P query ps)"
  shows "run tr = retry_loop P att (py_range (retry_attempts P)) tr"
  using assms by (auto simp: execute_query_def execute_dml_def)

subsection \<open>C4: retry until success, or the last error\<close>

text \<open>
  C4, for \<^verbatim>\<open>execute_query\<close> and \<^verbatim>\<open>execute_dml\<close> alike (\<open>run\<close>, with \<open>att\<close> its
  \<^verbatim>\<open>with\<close> statement). If the first \<open>k\<close> attempts raise an Exception and attempt
  \<open>k + 1\<close>, within \<^verbatim>\<open>max_retries\<close>, returns \<open>v\<close>, the call returns \<open>v\<close>, as does a call
  that starts where that attempt starts and succeeds at once, and it has slept \<open>k\<close>
  times, \<^verbatim>\<open>retry_delay\<close> each. If all \<open>n = max_retries \<ge> 1\<close> attempts raise an
  Exception, the call ends as its last attempt ends: it raises that attempt's exception
  itself, after \<open>n - 1\<close> sleeps of \<^verbatim>\<open>retry_delay\<close>, one between consecutive attempts.
\<close>

theorem execute_retry:
  assumes "(att, run) = (query_attempt cfg D P query ps fetch_all,
                         execute_query cfg D P query ps fetch_all)
           \<or> (att, run) = (dml_attempt cfg D P query ps, execute_dml cfg D P query ps)"
  shows "(fails_transiently P att k tr \<and> int k < retry_attempts P
            \<and> att (attempt_start P att k tr) = (Inr v, tr')
          \<longrightarrow> run tr = (Inr v, tr') \<and> run (attempt_start P att k tr) = (Inr v, tr')
              \<and> sleeps tr' = sleeps tr @ replicate k (retry_delay P))
         \<and> (fails_transiently P att n tr \<and> int n = retry_attempts P \<and> 1 \<le> n
          \<longrightarrow> run tr = att (attempt_start P att (n - 1) tr)
              \<and> (\<exists>e. fst (run tr) = Inl e \<and> is_Exception e)
              \<and> sleeps (snd (run tr)) = sleeps tr @ replicate (n - 1) (retry_delay P))"
proof (intro conjI impI; (elim conjE)?)
  have sl: "\<And>t. sleeps (snd (att t)) = sleeps t"
    using assms by (intro attempt_sleeps [of att cfg D P query ps fetch_all]) auto
  note run = run_is_retry_loop [OF assms]
  {
    assume f: "fails_transiently P att k tr" and k: "int k < retry_attempts P"
      and a: "att (attempt_start P att k tr) = (Inr v, tr')"
    show "run tr = (Inr v, tr')"
      unfolding run by (rule retry_loop_success [OF f k a])
    have "fails_transiently P att 0 (attempt_start P att k tr)" by simp
    moreover have "int 0 < retry_attempts P" using k by simp
    moreover have "att (attempt_start P att 0 (attempt_start P att k tr)) = (Inr v, tr')"
      using a by simp
    ultimately show "run (attempt_start P att k tr) = (Inr v, tr')"
      unfolding run by (rule retry_loop_success)
    have "sleeps tr' = sleeps (snd (att (attempt_start P att k tr)))" using a by simp
    then show "sleeps tr' = sleeps tr @ replicate k (retry_delay P)"
      by (simp add: sl attempt_start_sleeps [of att, OF sl])
  }
  {
    assume f: "fails_transiently P att n tr" and n: "int n = retry_attempts P" "1 \<le> n"
    note ex = retry_loop_exhausted [OF f n]
    from ex show r: "run tr = att (attempt_start P att (n - 1) tr)"
      unfolding run by simp
    from ex show "\<exists>e. fst (run tr) = Inl e \<and> is_Exception e"
      unfolding r by simp
    show "sleeps (snd (run tr)) = sleeps tr @ replicate (n - 1) (retry_delay P)"
      unfolding r by (simp add: sl attempt_start_sleeps [of att, OF sl])
  }
qed

subsection \<open>C10: a result, the last error, or no attempt\<close>

text \<open>
  C10, for \<^verbatim>\<open>execute_query\<close> and \<^verbatim>\<open>execute_dml\<close> alike. With \<^verbatim>\<open>max_retries \<ge> 1\<close> the
  call ends as its final attempt ends: every attempt before it raised an Exception, and
  it is either the attempt number \<^verbatim>\<open>max_retries\<close> or one that did not raise an Exception.
  So the call returns what that attempt returns or raises what it raises, and an
  Exception comes out of the call only when all \<^verbatim>\<open>max_retries\<close> attempts raised one,
  and is that of the last. With \<^verbatim>\<open>max_retries \<le> 0\<close> nothing is called and the value is
  \<^verbatim>\<open>None\<close>.
\<close>

theorem execute_result_error_or_none:
  assumes "(att, run) = (query_attempt cfg D P query ps fetch_all,
                         execute_query cfg D P query ps fetch_all)
           \<or> (att, run) = (dml_attempt cfg D P query ps, execute_dml cfg D P query ps)"
  shows "(1 \<le> retry_attempts P \<longrightarrow>
            (\<exists>k. int k < retry_attempts P \<and> fails_transiently P att k tr
                 \<and> run tr = att (attempt_start P att k tr)
                 \<and> (int (Suc k) = retry_attempts P
                    \<or> \<not> (\<exists>e. fst (att (attempt_start P att k tr)) = Inl e \<and> is_Exception e)))
            \<and> (\<forall>e. fst (run tr) = Inl e \<and> is_Exception e \<longrightarrow>
                  fails_transiently P att (nat (retry_attempts P)) tr
                  \<and> run tr = att (attempt_start P att (nat (retry_attempts P) - 1) tr)))
         \<and> (retry_attempts P \<le> 0 \<longrightarrow> run tr = (Inr PyNone, tr))"
  unfolding run_is_retry_loop [OF assms]
  using retry_loop_ends_at_final [of P att tr] retry_loop_raises_only_exhausted [of P att tr]
    retry_loop_no_attempt [of P att tr]
  by blast

subsection \<open>Concrete runs of the retry loop\<close>

lemmas run_defs = get_connection_def live_cfg_def live_pool_def init_def
      ok_driver_def call_def conn_call_def dml_body_def release_then_def on_error_def
      params_or_empty_def cursor_rowcount_def dml_attempt_def

lemma flaky_attempt_fails:
  "length (executed tr) < 2 \<Longrightarrow>
   dml_attempt live_cfg flaky_driver live_pool ''UPDATE'' None tr
     = (Inl (Exc ''ORA-03113''),
        tr @ [(Acquire, None), (Cursor, None),
         (Execute ''UPDATE'' (Named []), Some (Exc ''ORA-03113'')),
         (Rollback, None), (Release, None)])"
  by (simp add: run_defs flaky_driver_def)

lemma flaky_attempt_succeeds:
  "\<not> length (executed tr) < 2 \<Longrightarrow>
   dml_attempt live_cfg flaky_driver live_pool ''UPDATE'' None tr
     = (Inr (PyInt 1),
        tr @ [(Acquire, None), (Cursor, None), (Execute ''UPDATE'' (Named []), None),
         (CursorClose, None), (Commit, None), (Release, None)])"
  by (simp add: run_defs flaky_driver_def)

lemma failing_attempt:
  "dml_attempt live_cfg failing_driver live_pool ''UPDATE'' None tr
     = (Inl (Exc ''ORA-00001''),
        tr @ [(Acquire, None), (Cursor, None),
         (Execute ''UPDATE'' (Named []), Some (Exc ''ORA-00001'')),
         (Rollback, None), (Release, None)])"
  by (simp add: run_defs failing_driver_def)

theorem execute_retry_witness:
  "fails_transiently live_pool (dml_attempt live_cfg flaky_driver live_pool ''UPDATE'' None)
     (Suc (Suc 0)) []
   \<and> int (Suc (Suc 0)) < retry_attempts live_pool
   \<and> fst (execute_dml live_cfg flaky_driver live_pool ''UPDATE'' None []) = Inr (PyInt 1)
   \<and> sleeps (snd (execute_dml live_cfg flaky_driver live_pool ''UPDATE'' None [])) = [5, 5]
   \<and> fails_transiently live_pool (dml_attempt live_cfg failing_driver live_pool ''UPDATE'' None)
     (Suc (Suc (Suc 0))) []
   \<and> int (Suc (Suc (Suc 0))) = retry_attempts live_pool
   \<and> fst (execute_dml live_cfg failing_driver live_pool ''UPDATE'' None [])
        = Inl (Exc ''ORA-00001'')
   \<and> sleeps (snd (execute_dml live_cfg failing_driver live_pool ''UPDATE'' None [])) = [5, 5]"
proof -
  let ?att = "dml_attempt live_cfg flaky_driver live_pool ''UPDATE'' None"
  let ?run = "execute_dml live_cfg flaky_driver live_pool ''UPDATE'' None"
  let ?att' = "dml_attempt live_cfg failing_driver live_pool ''UPDATE'' None"
  let ?run' = "execute_dml live_cfg failing_driver live_pool ''UPDATE'' None"
  have f: "fails_transiently live_pool ?att (Suc (Suc 0)) []"
    by (simp add: flaky_attempt_fails)
  have k: "int (Suc (Suc 0)) < retry_attempts live_pool"
    by (simp add: live_pool_def init_def live_cfg_def)
  obtain v tr' where a: "?att (attempt_start live_pool ?att (Suc (Suc 0)) []) = (Inr v, tr')"
    and v: "v = PyInt 1"
    by (simp add: flaky_attempt_fails flaky_attempt_succeeds)
  have d: "retry_delay live_pool = 5"
    by (simp add: live_pool_def init_def live_cfg_def)
  from execute_retry [of ?att ?run live_cfg flaky_driver live_pool "''UPDATE''" None True
      "Suc (Suc 0)" "[]" v tr' 0] f k a
  have 1: "?run [] = (Inr v, tr')" "sleeps tr' = replicate (Suc (Suc 0)) (retry_delay live_pool)"
    by simp_all
  have f': "fails_transiently live_pool ?att' (Suc (Suc (Suc 0))) []"
    by (simp add: failing_attempt)
  have n: "int (Suc (Suc (Suc 0))) = retry_attempts live_pool"
    by (simp add: live_pool_def init_def live_cfg_def)
  from execute_retry [of ?att' ?run' live_cfg failing_driver live_pool "''UPDATE''" None True
      0 "[]" v tr' "Suc (Suc (Suc 0))"] f' n
  have 2: "fst (?run' []) = Inl (Exc ''ORA-00001'')"
    "sleeps (snd (?run' [])) = [5, 5]"
    by (simp_all add: failing_attempt d)
  from f k 1 v f' n 2 d show ?thesis by simp
qed

lemma run_dml_flaky:
  "execute_dml live_cfg flaky_driver live_pool ''UPDATE'' None []
     = (Inr (PyInt 1),
        [(Acquire, None), (Cursor, None),
         (Execute ''UPDATE'' (Named []), Some (Exc ''ORA-03113'')),
         (Rollback, None), (Release, None), (Sleep 5, None),
         (Acquire, None), (Cursor, None),
         (Execute ''UPDATE'' (Named []), Some (Exc ''ORA-03113'')),
         (Rollback, None), (Release, None), (Sleep 5, None),
         (Acquire, None), (Cursor, None), (Execute ''UPDATE'' (Named []), None),
         (CursorClose, None), (Commit, None), (Release, None)])"
proof -
  let ?att = "dml_attempt live_cfg flaky_driver live_pool ''UPDATE'' None"
  have d: "retry_delay live_pool = 5"
    by (simp add: live_pool_def init_def live_cfg_def)
  have f: "fails_transiently live_pool ?att (Suc (Suc 0)) []"
    by (simp add: flaky_attempt_fails)
  have k: "int (Suc (Suc 0)) < retry_attempts live_pool"
    by (simp add: live_pool_def init_def live_cfg_def)
  have a: "?att (attempt_start live_pool ?att (Suc (Suc 0)) [])
     = (Inr (PyInt 1),
        [(Acquire, None), (Cursor, None),
         (Execute ''UPDATE'' (Named []), Some (Exc ''ORA-03113'')),
         (Rollback, None), (Release, None), (Sleep 5, None),
         (Acquire, None), (Cursor, None),
         (Execute ''UPDATE'' (Named []), Some (Exc ''ORA-03113'')),
         (Rollback, None), (Release, None), (Sleep 5, None),
         (Acquire, None), (Cursor, None), (Execute ''UPDATE'' (Named []), None),
         (CursorClose, None), (Commit, None), (Release, None)])"
    by (simp add: flaky_attempt_fails flaky_attempt_succeeds d)
  show ?thesis
    unfolding execute_dml_def by (rule retry_loop_success [OF f k a])
qed

lemma run_dml_exhausted:
  "execute_dml live_cfg failing_driver live_pool ''UPDATE'' None []
     = (Inl (Exc ''ORA-00001''),
        [(Acquire, None), (Cursor, None),
         (Execute ''UPDATE'' (Named []), Some (Exc ''ORA-00001'')),
         (Rollback, None), (Release, None), (Sleep 5, None),
         (Acquire, None), (Cursor, None),
         (Execute ''UPDATE'' (Named []), Some (Exc ''ORA-00001'')),
         (Rollback, None), (Release, None), (Sleep 5, None),
         (Acquire, None), (Cursor, None),
         (Execute ''UPDATE'' (Named []), Some (Exc ''ORA-00001'')),
         (Rollback, None), (Release, None)])"
proof -
  let ?att = "dml_attempt live_cfg failing_driver live_pool ''UPDATE'' None"
  have d: "retry_delay live_pool = 5"
    by (simp add: live_pool_def init_def live_cfg_def)
  have f: "fails_transiently live_pool ?att (Suc (Suc (Suc 0))) []"
    by (simp add: failing_attempt)
  have n: "int (Suc (Suc (Suc 0))) = retry_attempts live_pool"
    by (simp add: live_pool_def init_def live_cfg_def)
  from retry_loop_exhausted [OF f n] show ?thesis
    unfolding execute_dml_def by (simp add: failing_attempt d)
qed

theorem execute_result_error_or_none_witness:
  "1 \<le> retry_attempts live_pool
   \<and> fails_transiently live_pool (dml_attempt live_cfg flaky_driver live_pool ''UPDATE'' None)
       (Suc (Suc 0)) []
   \<and> fst (execute_dml live_cfg flaky_driver live_pool ''UPDATE'' None []) = Inr (PyInt 1)
   \<and> fst (execute_dml live_cfg failing_driver live_pool ''UPDATE'' None [])
       = Inl (Exc ''ORA-00001'')
   \<and> is_Exception (Exc ''ORA-00001'')
   \<and> nat (retry_attempts live_pool) = 3
   \<and> fails_transiently live_pool (dml_attempt live_cfg failing_driver live_pool ''UPDATE'' None)
       (nat (retry_attempts live_pool)) []
   \<and> execute_dml live_cfg failing_driver live_pool ''UPDATE'' None []
       = dml_attempt live_cfg failing_driver live_pool ''UPDATE'' None
           (attempt_start live_pool (dml_attempt live_cfg failing_driver live_pool ''UPDATE'' None)
              (nat (retry_attempts live_pool) - 1) [])
   \<and> retry_attempts (live_pool\<lparr>retry_attempts := 0\<rparr>) \<le> 0
   \<and> execute_query live_cfg ok_driver (live_pool\<lparr>retry_attempts := 0\<rparr>) ''SELECT'' None True []
       = (Inr PyNone, [])
   \<and> execute_dml live_cfg ok_driver (live_pool\<lparr>retry_attempts := - 1\<rparr>) ''UPDATE'' None []
       = (Inr PyNone, [])"
proof -
  let ?att = "dml_attempt live_cfg failing_driver live_pool ''UPDATE'' None"
  let ?run = "execute_dml live_cfg failing_driver live_pool ''UPDATE'' None"
  have n: "1 \<le> retry_attempts live_pool" "nat (retry_attempts live_pool) = 3"
    by (simp_all add: live_pool_def init_def live_cfg_def)
  have f: "fails_transiently live_pool (dml_attempt live_cfg flaky_driver live_pool ''UPDATE'' None)
       (Suc (Suc 0)) []"
    by (simp add: flaky_attempt_fails)
  have r: "fst (?run []) = Inl (Exc ''ORA-00001'')" "is_Exception (Exc ''ORA-00001'')"
    by (simp_all add: run_dml_exhausted)
  from execute_result_error_or_none [of ?att ?run live_cfg failing_driver live_pool
      "''UPDATE''" None True "[]"] n(1) r
  have 1: "fails_transiently live_pool ?att (nat (retry_attempts live_pool)) []"
    "?run [] = ?att (attempt_start live_pool ?att (nat (retry_attempts live_pool) - 1) [])"
    by blast+
  from execute_result_error_or_none [of "query_attempt live_cfg ok_driver (live_pool\<lparr>retry_attempts := 0\<rparr>) ''SELECT'' None True"
      "execute_query live_cfg ok_driver (live_pool\<lparr>retry_attempts := 0\<rparr>) ''SELECT'' None True"
      live_cfg ok_driver "live_pool\<lparr>retry_attempts := 0\<rparr>" "''SELECT''" None True "[]"]
  have 2: "execute_query live_cfg ok_driver (live_pool\<lparr>retry_attempts := 0\<rparr>) ''SELECT'' None True []
       = (Inr PyNone, [])"
    by simp
  from execute_result_error_or_none [of "dml_attempt live_cfg ok_driver (live_pool\<lparr>retry_attempts := - 1\<rparr>) ''UPDATE'' None"
      "execute_dml live_cfg ok_driver (live_pool\<lparr>retry_attempts := - 1\<rparr>) ''UPDATE'' None"
      live_cfg ok_driver "live_pool\<lparr>retry_attempts := - 1\<rparr>" "''UPDATE''" None True "[]"]
  have 3: "execute_dml live_cfg ok_driver (live_pool\<lparr>retry_attempts := - 1\<rparr>) ''UPDATE'' None []
       = (Inr PyNone, [])"
    by simp
  have 4: "fst (execute_dml live_cfg flaky_driver live_pool ''UPDATE'' None []) = Inr (PyInt 1)"
    by (simp add: run_dml_flaky)
  from n f r 1 2 3 4 show ?thesis by simp
qed

subsection \<open>The validation checks\<close>

lemma numeric_check_columns:
  "m \<in> set (numeric_check parses df cols) \<Longrightarrow> message_column m \<in> set (columns df)"
  by (auto simp: numeric_check_def Let_def split: if_splits)

lemma categorical_check_columns:
  "m \<in> set (categorical_check df checks) \<Longrightarrow> message_column m \<in> set (columns df)"
  by (auto simp: categorical_check_def Let_def split: if_splits)

lemma positive_check_columns:
  "positive_check df cols = Inr ms \<Longrightarrow> m \<in> set ms \<Longrightarrow> message_column m \<in> set (columns df)"
  by (induction cols arbitrary: ms) (auto split: if_splits sum.splits)

lemma range_check_columns:
  "range_check df checks = Inr ms \<Longrightarrow> m \<in> set ms \<Longrightarrow> message_column m \<in> set (columns df)"
  by (induction df checks arbitrary: ms rule: range_check.induct)
     (auto simp: Let_def split: if_splits sum.splits)

lemma validate_Some:
  assumes "validate_data_quality parses dqr df source_name = Inr rep"
    and "dqr source_name = Some rules"
  shows "\<exists>e1 w2.
           (case positive_columns rules of None \<Rightarrow> Inr [] | Some cols \<Rightarrow> positive_check df cols) = Inr e1
         \<and> (case range_checks rules of None \<Rightarrow> Inr [] | Some checks \<Rightarrow> range_check df checks) = Inr w2
         \<and> warnings rep = (case numeric_columns rules of None \<Rightarrow> []
                            | Some cols \<Rightarrow> numeric_check parses df cols) @ w2
         \<and> errors rep = e1 @ (case categorical_checks rules of None \<Rightarrow> []
                                | Some checks \<Rightarrow> categorical_check df checks)
         \<and> issues rep = warnings rep @ errors rep"
  using assms
  by (auto simp: validate_data_quality_def Let_def split: sum.splits)

lemma validate_None:
  assumes "validate_data_quality parses dqr df source_name = Inr rep"
    and "dqr source_name = None"
  shows "warnings rep = [] \<and> errors rep = [] \<and> issues rep = []"
  using assms by (auto simp: validate_data_quality_def)

lemma validate_message_columns:
  assumes "validate_data_quality parses dqr df source_name = Inr rep"
    and "m \<in> set (warnings rep) \<union> set (errors rep)"
  shows "message_column m \<in> set (columns df)"
proof (cases "dqr source_name")
  case None
  from validate_None [OF assms(1) None] assms(2) show ?thesis by simp
next
  case (Some rules)
  from validate_Some [OF assms(1) Some] obtain e1 w2 where
    p: "(case positive_columns rules of None \<Rightarrow> Inr [] | Some cols \<Rightarrow> positive_check df cols) = Inr e1"
    and r: "(case range_checks rules of None \<Rightarrow> Inr [] | Some checks \<Rightarrow> range_check df checks) = Inr w2"
    and w: "warnings rep = (case numeric_columns rules of None \<Rightarrow> []
                            | Some cols \<Rightarrow> numeric_check parses df cols) @ w2"
    and e: "errors rep = e1 @ (case categorical_checks rules of None \<Rightarrow> []
                                | Some checks \<Rightarrow> categorical_check df checks)"
    by blast
  have e1: "m \<in> set e1 \<Longrightarrow> ?thesis"
    using p positive_check_columns by (cases "positive_columns rules") auto
  have w2: "m \<in> set w2 \<Longrightarrow> ?thesis"
    using r range_check_columns by (cases "range_checks rules") auto
  have w1: "m \<in> set (case numeric_columns rules of None \<Rightarrow> []
                            | Some cols \<Rightarrow> numeric_check parses df cols) \<Longrightarrow> ?thesis"
    using numeric_check_columns by (cases "numeric_columns rules") auto
  have e2: "m \<in> set (case categorical_checks rules of None \<Rightarrow> []
                                | Some checks \<Rightarrow> categorical_check df checks) \<Longrightarrow> ?thesis"
    using categorical_check_columns by (cases "categorical_checks rules") auto
  from assms(2) w e e1 w2 w1 e2 show ?thesis by auto
qed

subsection \<open>C9: a rule column absent from the batch\<close>

text \<open>
  C9: every message of a report, warning or error, of any of the four checks, is about
  a column of the batch; so a column that a rule names and the batch does not have
  contributes no message.
\<close>

theorem absent_column_no_message:
  assumes "validate_data_quality parses dqr df source_name = Inr rep"
    and "col \<notin> set (columns df)"
  shows "\<forall>m \<in> set (warnings rep) \<union> set (errors rep) \<union> set (issues rep).
           message_column m \<noteq> col"
proof
  fix m assume m: "m \<in> set (warnings rep) \<union> set (errors rep) \<union> set (issues rep)"
  have "issues rep = warnings rep @ errors rep"
    using assms(1)
    by (cases "dqr source_name") (auto dest: validate_None validate_Some)
  with m have "m \<in> set (warnings rep) \<union> set (errors rep)" by auto
  from validate_message_columns [OF assms(1) this] assms(2)
  show "message_column m \<noteq> col" by auto
qed

lemma validate_batch_AC:
  "validate_data_quality digits rules_table batch_AC ''raw_sales''
     = Inr \<lparr>source = ''raw_sales'', total_rows = 2, issues = [NonNumeric ''A'' 1],
            warnings = [NonNumeric ''A'' 1], errors = []\<rparr>"
  by (simp add: validate_data_quality_def rules_table_def sales_rules_def batch_AC_def
      numeric_check_def series_def non_numeric_def compare_scalar_def count_true_def
      categorical_check_def Let_def)

theorem absent_column_no_message_witness:
  "validate_data_quality digits rules_table batch_AC ''raw_sales''
     = Inr \<lparr>source = ''raw_sales'', total_rows = 2, issues = [NonNumeric ''A'' 1],
            warnings = [NonNumeric ''A'' 1], errors = []\<rparr>
   \<and> ''B'' \<notin> set (columns batch_AC)
   \<and> ''B'' \<in> set (the (numeric_columns sales_rules))
   \<and> ''B'' \<in> set (the (positive_columns sales_rules))
   \<and> message_column (NonNumeric ''A'' 1) \<noteq> ''B''"
proof -
  have b: "''B'' \<notin> set (columns batch_AC)" by (simp add: batch_AC_def)
  from absent_column_no_message [OF validate_batch_AC b]
  have "message_column (NonNumeric ''A'' 1) \<noteq> ''B''" by simp
  with b show ?thesis
    by (simp add: validate_batch_AC sales_rules_def)
qed

subsection \<open>C6: what the numeric check counts\<close>

lemma non_numeric_iff:
  "non_numeric parses c \<longleftrightarrow> c = Null \<or> (\<exists>s. c = Text s \<and> \<not> parses s)"
  by (cases c) (simp_all add: non_numeric_def)

lemma numeric_check_Nil [simp]: "numeric_check parses df [] = []"
  by (simp add: numeric_check_def)

lemma numeric_check_Cons:
  "numeric_check parses df (c # cs) =
     (if c \<in> set (columns df) \<and> 0 < length (filter (non_numeric parses) (series df c))
      then [NonNumeric c (length (filter (non_numeric parses) (series df c)))] else [])
     @ numeric_check parses df cs"
  by (simp add: numeric_check_def Let_def)

lemma NonNumeric_in_numeric_check:
  "NonNumeric col n \<in> set (numeric_check parses df cols) \<longleftrightarrow>
     col \<in> set cols \<and> col \<in> set (columns df)
     \<and> n = length (filter (non_numeric parses) (series df col)) \<and> 0 < n"
  by (induction cols) (auto simp: numeric_check_Cons)

lemma range_check_no_NonNumeric:
  "range_check df checks = Inr ms \<Longrightarrow> NonNumeric c k \<notin> set ms"
  by (induction df checks arbitrary: ms rule: range_check.induct)
     (auto simp: Let_def split: if_splits sum.splits)

lemma numeric_check_other_column:
  "col \<notin> set cols \<Longrightarrow> filter (\<lambda>m. \<exists>k. m = NonNumeric col k) (numeric_check parses df cols) = []"
  by (induction cols) (auto simp: numeric_check_Cons)

lemma numeric_check_single:
  "distinct cols \<Longrightarrow>
   length (filter (\<lambda>m. \<exists>k. m = NonNumeric col k) (numeric_check parses df cols)) \<le> 1"
  by (induction cols) (auto simp: numeric_check_Cons numeric_check_other_column)

lemma filter_no_NonNumeric:
  "(\<And>k. NonNumeric col k \<notin> set ms) \<Longrightarrow> filter (\<lambda>m. \<exists>k. m = NonNumeric col k) ms = []"
  by (induction ms) auto

text \<open>
  C6, as amended: for a declared numeric column present in the batch, the report has the
  warning \<^verbatim>\<open>"{col}: {n} non-numeric values"\<close> exactly for \<open>n\<close> the number of values of the
  column that are missing or are strings that do not parse as a number, when that number
  is not zero; a column declared once has at most one such warning. A missing value
  counts.
\<close>

theorem numeric_check_counts_missing:
  assumes "validate_data_quality parses dqr df source_name = Inr rep"
    and "dqr source_name = Some rules" and "numeric_columns rules = Some cols"
    and "col \<in> set cols" and "col \<in> set (columns df)"
  shows "(NonNumeric col n \<in> set (warnings rep) \<longleftrightarrow>
            n = length (filter (\<lambda>c. c = Null \<or> (\<exists>s. c = Text s \<and> \<not> parses s)) (series df col))
            \<and> 0 < n)
         \<and> (distinct cols \<longrightarrow>
              length (filter (\<lambda>m. \<exists>k. m = NonNumeric col k) (warnings rep)) \<le> 1)"
proof -
  from validate_Some [OF assms(1,2)] assms(3) obtain w2 where
    r: "(case range_checks rules of None \<Rightarrow> Inr [] | Some checks \<Rightarrow> range_check df checks) = Inr w2"
    and w: "warnings rep = numeric_check parses df cols @ w2"
    by auto
  have w2: "NonNumeric col k \<notin> set w2" for k
    using r range_check_no_NonNumeric by (cases "range_checks rules") auto
  have nn: "non_numeric parses = (\<lambda>c. c = Null \<or> (\<exists>s. c = Text s \<and> \<not> parses s))"
    by (rule ext) (rule non_numeric_iff)
  have "NonNumeric col n \<in> set (warnings rep) \<longleftrightarrow>
          n = length (filter (non_numeric parses) (series df col)) \<and> 0 < n"
    using assms(4,5) w2 by (simp add: w NonNumeric_in_numeric_check)
  moreover have "distinct cols \<longrightarrow>
      length (filter (\<lambda>m. \<exists>k. m = NonNumeric col k) (warnings rep)) \<le> 1"
    using numeric_check_single [of cols col parses df] filter_no_NonNumeric [of col w2] w2
    by (simp add: w)
  ultimately show ?thesis unfolding nn by blast
qed

theorem numeric_check_counts_missing_witness:
  "validate_data_quality digits rules_table batch_AC ''raw_sales''
     = Inr \<lparr>source = ''raw_sales'', total_rows = 2, issues = [NonNumeric ''A'' 1],
            warnings = [NonNumeric ''A'' 1], errors = []\<rparr>
   \<and> rules_table ''raw_sales'' = Some sales_rules
   \<and> numeric_columns sales_rules = Some [''A'', ''B'']
   \<and> ''A'' \<in> set [''A'', ''B''] \<and> ''A'' \<in> set (columns batch_AC)
   \<and> distinct [''A'', ''B'']
   \<and> series batch_AC ''A'' = [Num 1, Null]
   \<and> length (filter (\<lambda>c. c = Null \<or> (\<exists>s. c = Text s \<and> \<not> digits s)) (series batch_AC ''A'')) = 1"
proof -
  have t: "rules_table ''raw_sales'' = Some sales_rules" by (simp add: rules_table_def)
  have n: "numeric_columns sales_rules = Some [''A'', ''B'']" by (simp add: sales_rules_def)
  have a: "''A'' \<in> set [''A'', ''B'']" "''A'' \<in> set (columns batch_AC)"
    by (simp_all add: batch_AC_def)
  from numeric_check_counts_missing [OF validate_batch_AC t n a, of 1]
  have "length (filter (\<lambda>c. c = Null \<or> (\<exists>s. c = Text s \<and> \<not> digits s)) (series batch_AC ''A'')) = 1"
    by simp
  moreover have "series batch_AC ''A'' = [Num 1, Null]"
    by (simp add: series_def batch_AC_def)
  ultimately show ?thesis using t n a by (simp add: validate_batch_AC)
qed

text \<open>
  C6 as stated fails: the column A of \<open>batch_AC\<close> holds the number 1 and a missing value,
  nothing else, and the report has the warning that A has 1 non-numeric value.
\<close>

theorem numeric_check_null_counts:
  "series batch_AC ''A'' = [Num 1, Null]
   \<and> numeric_columns sales_rules = Some [''A'', ''B'']
   \<and> validate_data_quality digits rules_table batch_AC ''raw_sales''
     = Inr \<lparr>source = ''raw_sales'', total_rows = 2, issues = [NonNumeric ''A'' 1],
            warnings = [NonNumeric ''A'' 1], errors = []\<rparr>"
  using validate_batch_AC by (simp add: series_def batch_AC_def sales_rules_def)

subsection \<open>C5: required columns\<close>

text \<open>
  C5, as amended. \<^verbatim>\<open>validate_data_quality\<close> has no required-column check: the report
  is the same whatever columns the rules require. The check is made on extraction, by
  \<^verbatim>\<open>extract_raw_daily\<close> and \<^verbatim>\<open>extract_raw_sales\<close>: when a required column is absent
  they raise one ValueError whose message shows the set difference, required minus
  present, so every missing column and no other; otherwise they return the batch.
\<close>

theorem required_columns_checked_on_extraction:
  assumes "(name, extract) = (''raw_daily'', extract_raw_daily dqr)
           \<or> (name, extract) = (''raw_sales'', extract_raw_sales dqr)"
    and "dqr name = Some rules"
  shows "validate_data_quality parses (dqr(source_name \<mapsto> rules'\<lparr>required_columns := req\<rparr>)) df source_name
           = validate_data_quality parses (dqr(source_name \<mapsto> rules')) df source_name
         \<and> (set (required_columns rules) \<subseteq> set (columns df) \<longrightarrow> extract df = Inr df)
         \<and> (\<not> set (required_columns rules) \<subseteq> set (columns df) \<longrightarrow>
              extract df = Inl (ValueError_Missing_columns
                                  {c. c \<in> set (required_columns rules) \<and> c \<notin> set (columns df)}))"
proof -
  have e: "extract df = extract_checked dqr name df"
    using assms(1) by (auto simp: extract_raw_daily_def extract_raw_sales_def)
  have d: "set (required_columns rules) - set (columns df)
      = {c. c \<in> set (required_columns rules) \<and> c \<notin> set (columns df)}"
    by auto
  have "validate_data_quality parses (dqr(source_name \<mapsto> rules'\<lparr>required_columns := req\<rparr>)) df source_name
           = validate_data_quality parses (dqr(source_name \<mapsto> rules')) df source_name"
    by (simp add: validate_data_quality_def Let_def split: sum.splits)
  moreover have "set (required_columns rules) \<subseteq> set (columns df) \<longrightarrow> extract df = Inr df"
    using assms(2) by (auto simp: e extract_checked_def Let_def)
  moreover have "\<not> set (required_columns rules) \<subseteq> set (columns df) \<longrightarrow>
              extract df = Inl (ValueError_Missing_columns
                                  {c. c \<in> set (required_columns rules) \<and> c \<notin> set (columns df)})"
    using assms(2) unfolding d [symmetric] by (auto simp: e extract_checked_def Let_def)
  ultimately show ?thesis by blast
qed

theorem required_columns_checked_on_extraction_witness:
  "rules_table ''raw_sales'' = Some sales_rules
   \<and> \<not> set (required_columns sales_rules) \<subseteq> set (columns batch_AC)
   \<and> extract_raw_sales rules_table batch_AC = Inl (ValueError_Missing_columns {''B''})
   \<and> set (required_columns daily_rules) \<subseteq> set (columns batch_negative)
   \<and> extract_raw_daily rules_table batch_negative = Inr batch_negative"
proof -
  have t: "rules_table ''raw_sales'' = Some sales_rules" "rules_table ''raw_daily'' = Some daily_rules"
    by (simp_all add: rules_table_def)
  have m: "\<not> set (required_columns sales_rules) \<subseteq> set (columns batch_AC)"
    by (simp add: sales_rules_def batch_AC_def)
  have s: "set (required_columns daily_rules) \<subseteq> set (columns batch_negative)"
    by (simp add: daily_rules_def batch_negative_def)
  have b: "{c. c \<in> set (required_columns sales_rules) \<and> c \<notin> set (columns batch_AC)} = {''B''}"
    by (auto simp: sales_rules_def batch_AC_def)
  from required_columns_checked_on_extraction
    [of "''raw_sales''" "extract_raw_sales rules_table" rules_table sales_rules, OF _ t(1)] m
  have 1: "extract_raw_sales rules_table batch_AC = Inl (ValueError_Missing_columns {''B''})"
    unfolding b [symmetric] by blast
  from required_columns_checked_on_extraction
    [of "''raw_daily''" "extract_raw_daily rules_table" rules_table daily_rules, OF _ t(2)] s
  have 2: "extract_raw_daily rules_table batch_negative = Inr batch_negative"
    by blast
  from t m s 1 2 show ?thesis by simp
qed

text \<open>
  C5 as stated fails: the rules require A and B, the batch has A and C, and the report
  of the validation has no error message.
\<close>

theorem validation_ignores_required_columns:
  "required_columns sales_rules = [''A'', ''B''] \<and> columns batch_AC = [''A'', ''C'']
   \<and> rules_table ''raw_sales'' = Some sales_rules
   \<and> validate_data_quality digits rules_table batch_AC ''raw_sales''
     = Inr \<lparr>source = ''raw_sales'', total_rows = 2, issues = [NonNumeric ''A'' 1],
            warnings = [NonNumeric ''A'' 1], errors = []\<rparr>"
  using validate_batch_AC by (simp add: sales_rules_def batch_AC_def rules_table_def)

subsection \<open>C1: staging and the quality report\<close>

lemma create_pool_trace:
  "create_pool cfg D P tr = (r, P', tr') \<Longrightarrow>
   tr' = tr @ (if ORACLE_AVAILABLE cfg \<and> pool_arguments cfg = None
               then [(SessionPool, raises D tr SessionPool)] else [])"
  by (auto simp: create_pool_def call_def split: if_splits option.splits)

lemma close_pool_trace:
  "close_pool D P tr = (r, tr') \<Longrightarrow>
   tr' = tr @ (if pool P then [(PoolClose, raises D tr PoolClose)] else [])"
  by (auto simp: close_pool_def call_def split: if_splits option.splits)

lemma get_connection_pool_executed:
  "get_connection_pool cfg D w = (r, w') \<Longrightarrow> executed (trace w') = executed (trace w)"
  by (auto simp: get_connection_pool_def split: option.splits prod.splits sum.splits
           dest!: create_pool_trace)

lemma close_connection_pool_executed:
  "close_connection_pool D w = (r, w') \<Longrightarrow> executed (trace w') = executed (trace w)"
  by (auto simp: close_connection_pool_def split: option.splits prod.splits sum.splits
           dest!: close_pool_trace)

lemma stage_sources_Inr:
  "stage_sources cfg D P sources tr = (Inr u, tr') \<Longrightarrow>
   executed tr' = executed tr @ concat (map staged sources)"
proof (induction sources arbitrary: tr)
  case Nil
  then show ?case by simp
next
  case (Cons src sources)
  obtain source_name df where src: "src = (source_name, df)" by (cases src)
  show ?case
  proof (cases "table_for source_name")
    case None
    with Cons.prems have "stage_sources cfg D P sources tr = (Inr u, tr')"
      by (simp add: src)
    from Cons.IH [OF this] None show ?thesis
      by (simp add: src staged_def)
  next
    case (Some table_name)
    with Cons.prems obtain n tr1 where
      b: "execute_batch cfg D P (insert_sql table_name df) (df_values df)
            (Some (commit_interval cfg)) tr = (Inr n, tr1)"
      and rest: "stage_sources cfg D P sources tr1 = (Inr u, tr')"
      by (auto simp: src split: prod.splits sum.splits)
    from execute_batch_Inr [OF b] have
      "executed tr1 = executed tr @ map (\<lambda>row. (insert_sql table_name df, Positional row)) (df_values df)"
      by (simp add: executed_batch_events)
    with Cons.IH [OF rest] Some show ?thesis
      by (simp add: src staged_def)
  qed
qed

text \<open>
  C1, as amended. \<^verbatim>\<open>stage_data\<close> has no error gate: the quality report is not among
  its inputs. A run that completes has sent, for every source with a known name, in the
  order of the sources, one insert per row of the batch in row order, whatever the
  validation of the batch reports.
\<close>

theorem stage_data_sends_every_row:
  assumes "stage_data cfg D sources w = (Inr u, w')"
  shows "executed (trace w') = executed (trace w) @ concat (map staged sources)"
proof -
  from assms obtain P w1 r tr2 v where
    g: "get_connection_pool cfg D w = (Inr P, w1)"
    and s: "stage_sources cfg D P sources (trace w1) = (r, tr2)"
    and c: "close_connection_pool D (w1\<lparr>trace := tr2\<rparr>) = (Inr v, w')"
    and r: "r = Inr u"
    by (auto simp: stage_data_def split: prod.splits sum.splits)
  from get_connection_pool_executed [OF g] stage_sources_Inr [OF s [unfolded r]]
    close_connection_pool_executed [OF c]
  show ?thesis by simp
qed

lemma insert_sql_daily:
  "insert_sql ''STG_RAW_DAILY'' batch_negative = ''INSERT INTO STG_RAW_DAILY (quantity) VALUES (:1)''"
  by (simp add: insert_sql_def batch_negative_def)

lemma df_values_batch_negative: "df_values batch_negative = [[Num (- 5)]]"
  by (simp add: df_values_def batch_negative_def)

lemma validate_batch_negative:
  "validate_data_quality digits rules_table batch_negative ''raw_daily''
     = Inr \<lparr>source = ''raw_daily'', total_rows = 1, issues = [Negative ''quantity'' 1],
            warnings = [], errors = [Negative ''quantity'' 1]\<rparr>"
  by (simp add: validate_data_quality_def rules_table_def daily_rules_def batch_negative_def
      series_def compare_scalar_def count_true_def Let_def)

lemma stage_batch_negative:
  "stage_data live_cfg ok_driver [(''raw_daily'', batch_negative)]
      \<lparr>trace = [], connection_pool = None\<rparr>
     = (Inr (),
        \<lparr>trace = [(SessionPool, None), (Acquire, None), (Cursor, None),
                  (Execute ''INSERT INTO STG_RAW_DAILY (quantity) VALUES (:1)''
                     (Positional [Num (- 5)]), None),
                  (Commit, None), (CursorClose, None), (Commit, None), (Release, None),
                  (PoolClose, None)],
         connection_pool = None\<rparr>)"
  by (simp add: stage_data_def get_connection_pool_def create_pool_def close_connection_pool_def
      close_pool_def table_for_def insert_sql_daily df_values_batch_negative
      execute_batch_def get_connection_def live_cfg_def init_def
      ok_driver_def call_def conn_call_def batch_body_def batch_except_def batch_try_def
      effective_interval_def release_then_def on_error_def)

theorem stage_data_sends_every_row_witness:
  "fst (stage_data live_cfg ok_driver [(''raw_daily'', batch_negative)]
          \<lparr>trace = [], connection_pool = None\<rparr>) = Inr ()
   \<and> executed (trace (snd (stage_data live_cfg ok_driver [(''raw_daily'', batch_negative)]
          \<lparr>trace = [], connection_pool = None\<rparr>)))
       = [(''INSERT INTO STG_RAW_DAILY (quantity) VALUES (:1)'', Positional [Num (- 5)])]
   \<and> staged (''raw_daily'', batch_negative)
       = [(''INSERT INTO STG_RAW_DAILY (quantity) VALUES (:1)'', Positional [Num (- 5)])]"
proof -
  have s: "staged (''raw_daily'', batch_negative)
       = [(''INSERT INTO STG_RAW_DAILY (quantity) VALUES (:1)'', Positional [Num (- 5)])]"
    by (simp add: staged_def table_for_def insert_sql_daily df_values_batch_negative)
  from stage_data_sends_every_row [OF stage_batch_negative] s
  show ?thesis unfolding stage_batch_negative by simp
qed

text \<open>
  C1 as stated fails: the report of \<open>batch_negative\<close> has an error, the negative
  quantity, and staging sends its row to the store and commits it.
\<close>

theorem stage_data_ignores_report_errors:
  "validate_data_quality digits rules_table batch_negative ''raw_daily''
     = Inr \<lparr>source = ''raw_daily'', total_rows = 1, issues = [Negative ''quantity'' 1],
            warnings = [], errors = [Negative ''quantity'' 1]\<rparr>
   \<and> stage_data live_cfg ok_driver [(''raw_daily'', batch_negative)]
      \<lparr>trace = [], connection_pool = None\<rparr>
     = (Inr (),
        \<lparr>trace = [(SessionPool, None), (Acquire, None), (Cursor, None),
                  (Execute ''INSERT INTO STG_RAW_DAILY (quantity) VALUES (:1)''
                     (Positional [Num (- 5)]), None),
                  (Commit, None), (CursorClose, None), (Commit, None), (Release, None),
                  (PoolClose, None)],
         connection_pool = None\<rparr>)"
  using validate_batch_negative stage_batch_negative by simp

subsection \<open>C8: creating the pool\<close>

lemma execute_batch_without_pool:
  "ORACLE_AVAILABLE cfg \<Longrightarrow> \<not> pool P \<Longrightarrow>
   execute_batch cfg D P query data ci tr = (Inl (Exc ''AttributeError''), tr)"
  by (simp add: execute_batch_def get_connection_def)

text \<open>
  C8, as amended. \<^verbatim>\<open>create_pool\<close> never retries, whatever \<^verbatim>\<open>max_retries\<close> is: it
  calls the driver's SessionPool at most once, exactly once when the Oracle client is
  available and the arguments of the pool evaluate, and not at all in demo mode or when
  \<^verbatim>\<open>get_oracle_dsn()\<close> or a lookup of \<^verbatim>\<open>self.config\<close> raises. It returns True exactly in
  demo mode or when that one call is made and succeeds. An Exception, of the arguments
  or of the call, is not raised but reported as the value False, the object left as it
  was. A load through an object without a session pool raises AttributeError before any
  call of the driver.
\<close>

theorem create_pool_single_attempt:
  assumes "create_pool cfg D P tr = (r, P', tr')"
  shows "tr' = tr @ (if ORACLE_AVAILABLE cfg \<and> pool_arguments cfg = None
                     then [(SessionPool, raises D tr SessionPool)] else [])
         \<and> (r = Inr True \<longleftrightarrow>
              \<not> ORACLE_AVAILABLE cfg
              \<or> (pool_arguments cfg = None \<and> raises D tr SessionPool = None))
         \<and> (\<forall>e. ORACLE_AVAILABLE cfg \<and> is_Exception e
                \<and> (pool_arguments cfg = Some e
                    \<or> (pool_arguments cfg = None \<and> raises D tr SessionPool = Some e))
                \<longrightarrow> r = Inr False \<and> P' = P)
         \<and> (ORACLE_AVAILABLE cfg \<and> \<not> pool P' \<longrightarrow>
              execute_batch cfg D P' query data ci t = (Inl (Exc ''AttributeError''), t))"
proof (intro conjI)
  show "tr' = tr @ (if ORACLE_AVAILABLE cfg \<and> pool_arguments cfg = None
                     then [(SessionPool, raises D tr SessionPool)] else [])"
    using create_pool_trace [OF assms] .
  show "r = Inr True \<longleftrightarrow>
          \<not> ORACLE_AVAILABLE cfg
          \<or> (pool_arguments cfg = None \<and> raises D tr SessionPool = None)"
    using assms by (auto simp: create_pool_def call_def split: if_splits option.splits)
  show "\<forall>e. ORACLE_AVAILABLE cfg \<and> is_Exception e
                \<and> (pool_arguments cfg = Some e
                    \<or> (pool_arguments cfg = None \<and> raises D tr SessionPool = Some e))
                \<longrightarrow> r = Inr False \<and> P' = P"
    using assms by (auto simp: create_pool_def call_def)
  show "ORACLE_AVAILABLE cfg \<and> \<not> pool P' \<longrightarrow>
              execute_batch cfg D P' query data ci t = (Inl (Exc ''AttributeError''), t)"
    by (simp add: execute_batch_without_pool)
qed

lemma create_pool_down:
  "create_pool live_cfg down_driver (init live_cfg) []
     = (Inr False, init live_cfg, [(SessionPool, Some (Exc ''ORA-12541''))])"
  by (simp add: create_pool_def live_cfg_def down_driver_def ok_driver_def call_def)

lemma create_pool_keyless:
  "create_pool keyless_cfg ok_driver (init keyless_cfg) []
     = (Inr False, init keyless_cfg, [])"
  by (simp add: create_pool_def keyless_cfg_def live_cfg_def)

theorem create_pool_single_attempt_witness:
  "ORACLE_AVAILABLE live_cfg \<and> pool_arguments live_cfg = None
   \<and> raises down_driver [] SessionPool = Some (Exc ''ORA-12541'')
   \<and> is_Exception (Exc ''ORA-12541'')
   \<and> \<not> pool (init live_cfg)
   \<and> create_pool live_cfg down_driver (init live_cfg) []
       = (Inr False, init live_cfg, [] @ [(SessionPool, Some (Exc ''ORA-12541''))])
   \<and> execute_batch live_cfg down_driver (init live_cfg) ''INSERT'' rows3 None []
       = (Inl (Exc ''AttributeError''), [])
   \<and> ORACLE_AVAILABLE keyless_cfg \<and> pool_arguments keyless_cfg = Some (Exc ''KeyError'')
   \<and> create_pool keyless_cfg ok_driver (init keyless_cfg) []
       = (Inr False, init keyless_cfg, [])"
proof -
  have a: "ORACLE_AVAILABLE live_cfg" "pool_arguments live_cfg = None"
    by (simp_all add: live_cfg_def)
  have d: "raises down_driver [] SessionPool = Some (Exc ''ORA-12541'')"
    by (simp add: down_driver_def ok_driver_def)
  have p: "\<not> pool (init live_cfg)" by (simp add: init_def)
  from create_pool_single_attempt [OF create_pool_down, of "''INSERT''" rows3 None "[]"] a p
  have 1: "execute_batch live_cfg down_driver (init live_cfg) ''INSERT'' rows3 None []
       = (Inl (Exc ''AttributeError''), [])"
    by blast
  have k: "ORACLE_AVAILABLE keyless_cfg" "pool_arguments keyless_cfg = Some (Exc ''KeyError'')"
    by (simp_all add: keyless_cfg_def live_cfg_def)
  from create_pool_single_attempt [OF create_pool_keyless] k
  have 2: "[] = [] @ (if ORACLE_AVAILABLE keyless_cfg \<and> pool_arguments keyless_cfg = None
                     then [(SessionPool, raises ok_driver [] SessionPool)] else [])"
    by blast
  from a d p 1 k show ?thesis by (simp add: create_pool_down create_pool_keyless)
qed

text \<open>
  C8 as stated fails: with \<^verbatim>\<open>max_retries = 3\<close> and a store that refuses the pool,
  \<^verbatim>\<open>create_pool\<close> makes one call and returns False, \<^verbatim>\<open>get_connection_pool\<close> returns
  the object to its caller as if created, and \<^verbatim>\<open>stage_data\<close> goes on to the load of
  the first batch.
\<close>

theorem create_pool_failure_not_fatal:
  "max_retries live_cfg = 3
   \<and> create_pool live_cfg down_driver (init live_cfg) []
       = (Inr False, init live_cfg, [(SessionPool, Some (Exc ''ORA-12541''))])
   \<and> get_connection_pool live_cfg down_driver \<lparr>trace = [], connection_pool = None\<rparr>
       = (Inr (init live_cfg),
          \<lparr>trace = [(SessionPool, Some (Exc ''ORA-12541''))],
           connection_pool = Some (init live_cfg)\<rparr>)
   \<and> stage_data live_cfg down_driver [(''raw_daily'', batch_negative)]
        \<lparr>trace = [], connection_pool = None\<rparr>
       = (Inl (Exc ''AttributeError''),
          \<lparr>trace = [(SessionPool, Some (Exc ''ORA-12541''))], connection_pool = None\<rparr>)"
proof -
  have 1: "max_retries live_cfg = 3" by (simp add: live_cfg_def)
  have 2: "get_connection_pool live_cfg down_driver \<lparr>trace = [], connection_pool = None\<rparr>
       = (Inr (init live_cfg),
          \<lparr>trace = [(SessionPool, Some (Exc ''ORA-12541''))],
           connection_pool = Some (init live_cfg)\<rparr>)"
    by (simp add: get_connection_pool_def create_pool_down)
  have a: "ORACLE_AVAILABLE live_cfg" by (simp add: live_cfg_def)
  have p: "\<not> pool (init live_cfg)" by (simp add: init_def)
  have 3: "stage_data live_cfg down_driver [(''raw_daily'', batch_negative)]
        \<lparr>trace = [], connection_pool = None\<rparr>
       = (Inl (Exc ''AttributeError''),
          \<lparr>trace = [(SessionPool, Some (Exc ''ORA-12541''))], connection_pool = None\<rparr>)"
    by (simp add: stage_data_def 2 table_for_def execute_batch_without_pool [OF a p]
        close_connection_pool_def close_pool_def p)
  from 1 2 3 show ?thesis by (simp add: create_pool_down)
qed

subsection \<open>The statements of a batch load\<close>

lemma statements_Nil [simp]: "statements [] = []"
  by (simp add: statements_def)

lemma statements_Cons [simp]:
  "statements ((a, x) # tr) = (case a of Execute q p \<Rightarrow> [((q, p), x)] | _ \<Rightarrow> []) @ statements tr"
  by (cases a) (simp_all add: statements_def)

lemma statements_append [simp]: "statements (xs @ ys) = statements xs @ statements ys"
  by (simp add: statements_def)

























subsection \<open>C3: one insert per row, in order\<close>




end
